theory Spec2Isabelle
  imports Main "HOL-Library.AList"
begin

section \<open>Python strings\<close>

text \<open>
  A Python \<open>str\<close> is modelled as a \<open>char list\<close>, one \<open>char\<close> per code point; the
  model covers the code points below 256 (Latin-1), so \<open>length\<close> counts code points
  as Python's \<open>len\<close> does.
\<close>

definition py_isspace :: "char \<Rightarrow> bool" where
  \<comment> \<open>\<open>str.isspace\<close> on one code point below 256: TAB..CR, FS..US, space, NEL, NBSP.\<close>
  "py_isspace c =
     (let n = (of_char c :: nat)
      in (9 \<le> n \<and> n \<le> 13) \<or> (28 \<le> n \<and> n \<le> 32) \<or> n = 133 \<or> n = 160)"

definition py_strip_ws :: "string \<Rightarrow> string" where
  \<comment> \<open>\<open>s.strip()\<close>\<close>
  "py_strip_ws s = rev (dropWhile py_isspace (rev (dropWhile py_isspace s)))"

definition py_strip :: "string \<Rightarrow> string \<Rightarrow> string" where
  \<comment> \<open>\<open>s.strip(chars)\<close>\<close>
  "py_strip chars s =
     rev (dropWhile (\<lambda>c. c \<in> set chars) (rev (dropWhile (\<lambda>c. c \<in> set chars) s)))"

definition py_replace :: "char \<Rightarrow> string \<Rightarrow> string \<Rightarrow> string" where
  \<comment> \<open>\<open>s.replace(old, new)\<close> for a one-character \<open>old\<close>\<close>
  "py_replace old new s = concat (map (\<lambda>c. if c = old then new else [c]) s)"

definition py_lower_char :: "char \<Rightarrow> char" where
  \<comment> \<open>\<open>str.lower\<close> on one code point below 256: A..Z and the Latin-1 capitals
      (0xC0..0xDE without the multiplication sign 0xD7) move up by 32.\<close>
  "py_lower_char c =
     (let n = (of_char c :: nat)
      in if (65 \<le> n \<and> n \<le> 90) \<or> (192 \<le> n \<and> n \<le> 214) \<or> (216 \<le> n \<and> n \<le> 222)
         then char_of (n + 32) else c)"

definition py_lower :: "string \<Rightarrow> string" where
  "py_lower s = map py_lower_char s"

fun py_startswith :: "string \<Rightarrow> string \<Rightarrow> bool" where
  \<comment> \<open>\<open>s.startswith(d)\<close>, written \<open>py_startswith d s\<close>\<close>
  "py_startswith [] s = True"
| "py_startswith (d # ds) [] = False"
| "py_startswith (d # ds) (c # cs) = (d = c \<and> py_startswith ds cs)"

fun py_in :: "string \<Rightarrow> string \<Rightarrow> bool" where
  \<comment> \<open>the substring test \<open>d in s\<close>\<close>
  "py_in d [] = (d = [])"
| "py_in d (c # cs) = (py_startswith d (c # cs) \<or> py_in d cs)"


section \<open>PathOrganizer: \<open>sanitize_filename\<close> and \<open>detect_platform_from_url\<close>\<close>

definition invalid_chars :: string where
  \<comment> \<open>the literal \<open><>:"/\|?*\<close>\<close>
  "invalid_chars =
     [CHR ''<'', CHR ''>'', CHR '':'', CHR 0x22, CHR ''/'', CHR 0x5C, CHR ''|'', CHR ''?'',
      CHR ''*'']"

definition sanitize_filename :: "string \<Rightarrow> string" where
  "sanitize_filename name =
     (if name = [] \<or> py_strip_ws name = [] then ''Unknown''
      else
        let name1 = fold (\<lambda>ch nm. py_replace ch ''_'' nm) invalid_chars name;
            name2 = py_strip ''. '' name1;
            name3 = (if length name2 > 100 then take 100 name2 else name2)
        in if name3 \<noteq> [] then name3 else ''Unknown'')"

text \<open>The pipeline in the words of the specification, to compare with the source.\<close>

definition sanitize_spec :: "string \<Rightarrow> string" where
  "sanitize_spec name =
     (if list_all py_isspace name then ''Unknown''
      else
        let replaced = map (\<lambda>c. if c \<in> set invalid_chars then CHR ''_'' else c) name;
            no_lead = dropWhile (\<lambda>c. c = CHR ''.'' \<or> c = CHR '' '') replaced;
            stripped = rev (dropWhile (\<lambda>c. c = CHR ''.'' \<or> c = CHR '' '') (rev no_lead));
            truncated = take 100 stripped
        in if truncated = [] then ''Unknown'' else truncated)"

definition platform_map :: "(string \<times> string) list" where
  \<comment> \<open>the dict literal of the source, in insertion order\<close>
  "platform_map =
     [(''youtube.com'', ''YouTube''),
      (''youtu.be'', ''YouTube''),
      (''tiktok.com'', ''TikTok''),
      (''instagram.com'', ''Instagram''),
      (''facebook.com'', ''Facebook''),
      (''fb.watch'', ''Facebook''),
      (''x.com'', ''X''),
      (''twitter.com'', ''X''),
      (''twitch.tv'', ''Twitch''),
      (''clips.twitch.tv'', ''Twitch''),
      (''snapchat.com'', ''Snapchat''),
      (''reddit.com'', ''Reddit''),
      (''vimeo.com'', ''Vimeo''),
      (''dailymotion.com'', ''Dailymotion''),
      (''dai.ly'', ''Dailymotion''),
      (''rumble.com'', ''Rumble''),
      (''odysee.com'', ''Odysee''),
      (''bilibili.tv'', ''Bilibili''),
      (''pinterest.com'', ''Pinterest''),
      (''pin.it'', ''Pinterest''),
      (''linkedin.com'', ''LinkedIn''),
      (''weibo.com'', ''Weibo''),
      (''tumblr.com'', ''Tumblr'')]"

fun detect_loop :: "(string \<times> string) list \<Rightarrow> string \<Rightarrow> string" where
  \<comment> \<open>\<open>for domain, platform in platform_map.items(): if domain in url_lower: return platform\<close>,
      then \<open>return "Other"\<close>\<close>
  "detect_loop [] url_lower = ''Other''"
| "detect_loop ((domain, platform) # rest) url_lower =
     (if py_in domain url_lower then platform else detect_loop rest url_lower)"

definition detect_platform_from_url :: "string \<Rightarrow> string" where
  "detect_platform_from_url url = (let url_lower = py_lower url in detect_loop platform_map url_lower)"

text \<open>The table lookup in the words of the specification: the first entry whose fragment
  occurs in the lower-cased URL decides; without one the label is \<open>Other\<close>.\<close>

definition detect_spec :: "string \<Rightarrow> string" where
  "detect_spec url =
     (case find (\<lambda>entry. py_in (fst entry) (py_lower url)) platform_map of
        None \<Rightarrow> ''Other''
      | Some entry \<Rightarrow> snd entry)"


section \<open>Python values read from JSON\<close>

text \<open>
  \<open>json.load\<close> yields \<open>None\<close>, booleans, integers, floats, strings, lists and dicts with
  string keys. A dict keeps its insertion order and has one entry per key, which an
  association list updated with \<open>AList.update\<close> reproduces: an assignment to a present
  key replaces the value in place, an assignment to a new key appends the entry.

  A float is kept as what \<open>repr\<close> is computed from: its sign, the shortest decimal digit
  string that identifies it, and the position of the decimal point relative to the
  start of that digit string (192.0 is the digits 1,9,2 with the point after 3 digits;
  0.05 is the digit 5 with point position -1; 0.0 is the digit 0 with point position 1).
\<close>

datatype pyfloat =
    PyFloat bool "nat list" int
  | PyInf bool
  | PyNaN

datatype json =
    JNull
  | JBool bool
  | JInt int
  | JFloat pyfloat
  | JStr string
  | JList "json list"
  | JDict "(string \<times> json) list"

type_synonym pydict = "(string \<times> json) list"

datatype error = TypeError | ValueError | OverflowError | AttributeError | OSError

definition digit_char :: "nat \<Rightarrow> char" where
  "digit_char d = char_of (48 + d)"

fun str_nat :: "nat \<Rightarrow> string" where
  \<comment> \<open>\<open>str(n)\<close> for a natural number: its decimal digits, no leading zero\<close>
  "str_nat n = (if n < 10 then [digit_char n] else str_nat (n div 10) @ [digit_char (n mod 10)])"

declare str_nat.simps [simp del]

definition str_int :: "int \<Rightarrow> string" where
  "str_int i = (if i < 0 then CHR ''-'' # str_nat (nat (- i)) else str_nat (nat i))"

definition exp_str :: "int \<Rightarrow> string" where
  \<comment> \<open>the exponent as C's \<open>%+.02d\<close> prints it: a sign and at least two digits\<close>
  "exp_str e =
     (if e < 0 then [CHR ''-''] else [CHR ''+'']) @ (if \<bar>e\<bar> < 10 then [CHR ''0''] else []) @
     str_nat (nat \<bar>e\<bar>)"

definition float_repr :: "pyfloat \<Rightarrow> string" where
  \<comment> \<open>\<open>repr\<close> of a float: scientific notation when the point position is at most -4 or
      above 16, positional notation with at least one digit after the point otherwise\<close>
  "float_repr f =
     (case f of
        PyNaN \<Rightarrow> ''nan''
      | PyInf neg \<Rightarrow> (if neg then ''-inf'' else ''inf'')
      | PyFloat neg ds decpt \<Rightarrow>
          (if neg then [CHR ''-''] else []) @
          (let dstr = map digit_char ds; dl = int (length ds)
           in if decpt \<le> - 4 \<or> decpt > 16
              then take 1 dstr @ (if dl > 1 then CHR ''.'' # drop 1 dstr else []) @
                   CHR ''e'' # exp_str (decpt - 1)
              else if decpt \<le> 0
              then ''0.'' @ replicate (nat (- decpt)) (CHR ''0'') @ dstr
              else if decpt < dl
              then take (nat decpt) dstr @ CHR ''.'' # drop (nat decpt) dstr
              else dstr @ replicate (nat (decpt - dl)) (CHR ''0'') @ ''.0''))"

definition hex_digit :: "nat \<Rightarrow> char" where
  "hex_digit d = (if d < 10 then char_of (48 + d) else char_of (87 + d))"

definition py_isprintable :: "char \<Rightarrow> bool" where
  \<comment> \<open>\<open>str.isprintable\<close> on one code point below 256\<close>
  "py_isprintable c =
     (let n = (of_char c :: nat)
      in (32 \<le> n \<and> n \<le> 126) \<or> (161 \<le> n \<and> n \<le> 172) \<or> (174 \<le> n \<and> n \<le> 255))"

definition repr_char :: "char \<Rightarrow> char \<Rightarrow> string" where
  \<comment> \<open>one character inside \<open>repr\<close> of a string delimited by \<open>quote\<close>\<close>
  "repr_char quote c =
     (if c = quote \<or> c = CHR 0x5C then [CHR 0x5C, c]
      else if c = CHR 0x09 then [CHR 0x5C, CHR ''t'']
      else if c = CHR 0x0A then [CHR 0x5C, CHR ''n'']
      else if c = CHR 0x0D then [CHR 0x5C, CHR ''r'']
      else if py_isprintable c then [c]
      else [CHR 0x5C, CHR ''x'', hex_digit (of_char c div 16), hex_digit (of_char c mod 16)])"

definition str_repr :: "string \<Rightarrow> string" where
  \<comment> \<open>\<open>repr\<close> of a string: single quotes, unless it holds a single quote and no double
      quote\<close>
  "str_repr s =
     (let quote = (if CHR 0x27 \<in> set s \<and> CHR 0x22 \<notin> set s then CHR 0x22 else CHR 0x27)
      in quote # concat (map (repr_char quote) s) @ [quote])"

fun join_comma :: "string list \<Rightarrow> string" where
  \<comment> \<open>\<open>", ".join(parts)\<close>\<close>
  "join_comma [] = []"
| "join_comma [p] = p"
| "join_comma (p # q # ps) = p @ '', '' @ join_comma (q # ps)"

fun py_repr :: "json \<Rightarrow> string" where
  "py_repr JNull = ''None''"
| "py_repr (JBool b) = (if b then ''True'' else ''False'')"
| "py_repr (JInt i) = str_int i"
| "py_repr (JFloat f) = float_repr f"
| "py_repr (JStr s) = str_repr s"
| "py_repr (JList xs) = CHR ''['' # join_comma (map py_repr xs) @ [CHR '']'']"
| "py_repr (JDict kvs) =
     CHR ''{'' # join_comma (map (\<lambda>(k, v). str_repr k @ '': '' @ py_repr v) kvs) @ [CHR ''}'']"

definition py_str :: "json \<Rightarrow> string" where
  \<comment> \<open>\<open>str(v)\<close>: the string itself, and \<open>repr\<close> for every other value\<close>
  "py_str v = (case v of JStr s \<Rightarrow> s | _ \<Rightarrow> py_repr v)"

definition is_digit :: "char \<Rightarrow> bool" where
  "is_digit c = (48 \<le> (of_char c :: nat) \<and> (of_char c :: nat) \<le> 57)"

definition digits_value :: "string \<Rightarrow> nat" where
  "digits_value cs = foldl (\<lambda>a c. 10 * a + (of_char c - 48)) 0 cs"

fun underscores_ok :: "string \<Rightarrow> bool" where
  \<comment> \<open>digits, where a single underscore may stand between two digits\<close>
  "underscores_ok [] = True"
| "underscores_ok [c] = is_digit c"
| "underscores_ok (c # d # cs) =
     (if c = CHR ''_'' then is_digit d \<and> underscores_ok (d # cs)
      else is_digit c \<and> underscores_ok (d # cs))"

definition int_isspace :: "char \<Rightarrow> bool" where
  \<comment> \<open>the whitespace that \<open>int\<close> skips around a number: TAB..CR and space, and the
      non-ASCII spaces NEL and NBSP, which \<open>int\<close> turns into spaces first. Unlike
      \<open>str.strip\<close>, \<open>int\<close> does not skip FS..US.\<close>
  "int_isspace c =
     (let n = (of_char c :: nat)
      in (9 \<le> n \<and> n \<le> 13) \<or> n = 32 \<or> n = 133 \<or> n = 160)"

definition int_max_str_digits :: nat where
  \<comment> \<open>the default of \<open>sys.get_int_max_str_digits()\<close>\<close>
  "int_max_str_digits = 4300"

definition int_of_str :: "string \<Rightarrow> error + int" where
  \<comment> \<open>\<open>int(s)\<close> in base 10: surrounding whitespace, an optional sign, then digits, where
      single underscores may stand between digits; more than 4300 digits are refused\<close>
  "int_of_str s =
     (let t = rev (dropWhile int_isspace (rev (dropWhile int_isspace s)));
          neg = (t \<noteq> [] \<and> hd t = CHR ''-'');
          body = (if t \<noteq> [] \<and> (hd t = CHR ''-'' \<or> hd t = CHR ''+'') then tl t else t)
      in if body \<noteq> [] \<and> is_digit (hd body) \<and> underscores_ok body \<and>
            length (filter is_digit body) \<le> int_max_str_digits
         then let n = int (digits_value (filter (\<lambda>c. c \<noteq> CHR ''_'') body))
              in Inr (if neg then - n else n)
         else Inl ValueError)"

definition float_trunc :: "bool \<Rightarrow> nat list \<Rightarrow> int \<Rightarrow> int" where
  \<comment> \<open>the integer part of a finite float, rounded towards zero\<close>
  "float_trunc neg ds decpt =
     (let n = foldl (\<lambda>a d. 10 * a + d) 0 ds;
          dl = int (length ds);
          m = (if decpt \<ge> dl then n * 10 ^ nat (decpt - dl) else n div 10 ^ nat (dl - decpt))
      in if neg then - int m else int m)"

definition py_int :: "json \<Rightarrow> error + int" where
  \<comment> \<open>\<open>int(v)\<close>\<close>
  "py_int v =
     (case v of
        JNull \<Rightarrow> Inl TypeError
      | JBool b \<Rightarrow> Inr (if b then 1 else 0)
      | JInt i \<Rightarrow> Inr i
      | JFloat f \<Rightarrow>
          (case f of
             PyNaN \<Rightarrow> Inl ValueError
           | PyInf neg \<Rightarrow> Inl OverflowError
           | PyFloat neg ds decpt \<Rightarrow> Inr (float_trunc neg ds decpt))
      | JStr s \<Rightarrow> int_of_str s
      | JList xs \<Rightarrow> Inl TypeError
      | JDict kvs \<Rightarrow> Inl TypeError)"

definition is_bool :: "json \<Rightarrow> bool" where
  \<comment> \<open>\<open>isinstance(v, bool)\<close>\<close>
  "is_bool v = (case v of JBool b \<Rightarrow> True | _ \<Rightarrow> False)"

definition py_truthy :: "json \<Rightarrow> bool" where
  \<comment> \<open>the truth value of \<open>v\<close> in a condition\<close>
  "py_truthy v =
     (case v of
        JNull \<Rightarrow> False
      | JBool b \<Rightarrow> b
      | JInt i \<Rightarrow> i \<noteq> 0
      | JFloat f \<Rightarrow> (case f of PyFloat neg ds decpt \<Rightarrow> list_ex (\<lambda>d. d \<noteq> 0) ds | _ \<Rightarrow> True)
      | JStr s \<Rightarrow> s \<noteq> []
      | JList xs \<Rightarrow> xs \<noteq> []
      | JDict kvs \<Rightarrow> kvs \<noteq> [])"

definition dict_get :: "pydict \<Rightarrow> string \<Rightarrow> json \<Rightarrow> json" where
  \<comment> \<open>\<open>d.get(key, default)\<close>\<close>
  "dict_get d key dflt = (case map_of d key of None \<Rightarrow> dflt | Some v \<Rightarrow> v)"

definition dict_set :: "pydict \<Rightarrow> string \<Rightarrow> json \<Rightarrow> pydict" where
  \<comment> \<open>\<open>d[key] = v\<close>\<close>
  "dict_set d key v = AList.update key v d"


section \<open>ConfigStore: \<open>load_config\<close>, \<open>_validate_config\<close> and \<open>_save_config\<close>\<close>

definition DEFAULT_CONFIG :: pydict where
  "DEFAULT_CONFIG =
     [(''default_format'', JStr ''show_all''),
      (''download_directory'', JStr ''media''),
      (''history_file'', JStr ''download_history.csv''),
      (''mp3_quality'', JStr ''192''),
      (''organize_downloads'', JBool True),
      (''download_metadata'', JBool True),
      (''download_comments'', JBool False),
      (''download_subtitles'', JBool False),
      (''max_comments'', JInt 200),
      (''authentication'',
         JDict [(''instagram_username'', JStr []),
                (''use_browser_cookies'', JBool True),
                (''cookie_browser'', JStr ''chrome''),
                (''session_directory'', JStr ''.smd_sessions'')])]"

definition VALID_DEFAULT_FORMATS :: "string list" where
  "VALID_DEFAULT_FORMATS =
     [''show_all'', ''mp3'', ''360p'', ''480p'', ''720p'', ''1080p'', ''1440p'', ''2160p'',
      ''4320p'']"

definition VALID_MP3_QUALITIES :: "string list" where
  "VALID_MP3_QUALITIES = [''64'', ''128'', ''192'', ''256'', ''320'', ''396'']"

text \<open>
  The repair pass threads the pair \<open>(config_data, config_changed)\<close> through its blocks;
  each block of the source is one function here, in the order of the source.
\<close>

fun add_missing_keys :: "pydict \<Rightarrow> pydict \<times> bool \<Rightarrow> pydict \<times> bool" where
  \<comment> \<open>\<open>for key, default_value in DEFAULT_CONFIG.items(): if key not in config_data: ...\<close>\<close>
  "add_missing_keys [] (config_data, config_changed) = (config_data, config_changed)"
| "add_missing_keys ((key, default_value) # rest) (config_data, config_changed) =
     (if map_of config_data key = None
      then add_missing_keys rest (dict_set config_data key default_value, True)
      else add_missing_keys rest (config_data, config_changed))"

definition check_mp3_quality :: "pydict \<times> bool \<Rightarrow> pydict \<times> bool" where
  "check_mp3_quality p =
     (let config_data = fst p; config_changed = snd p;
          mp3_quality = py_str (dict_get config_data ''mp3_quality'' (JStr ''192''))
      in if mp3_quality \<notin> set VALID_MP3_QUALITIES
         then (dict_set config_data ''mp3_quality'' (JStr ''192''), True)
         else (config_data, config_changed))"

definition check_default_format :: "pydict \<times> bool \<Rightarrow> pydict \<times> bool" where
  "check_default_format p =
     (let config_data = fst p; config_changed = snd p;
          default_format = py_lower (py_str (dict_get config_data ''default_format'' (JStr ''show_all'')))
      in if default_format \<notin> set VALID_DEFAULT_FORMATS
         then (dict_set config_data ''default_format'' (JStr ''show_all''), True)
         else (config_data, config_changed))"

definition check_organize_downloads :: "pydict \<times> bool \<Rightarrow> pydict \<times> bool" where
  "check_organize_downloads p =
     (let config_data = fst p; config_changed = snd p;
          organize_downloads = dict_get config_data ''organize_downloads'' (JBool False)
      in if \<not> is_bool organize_downloads
         then (dict_set config_data ''organize_downloads'' (JBool False), True)
         else (config_data, config_changed))"

definition check_download_metadata :: "pydict \<times> bool \<Rightarrow> pydict \<times> bool" where
  "check_download_metadata p =
     (let config_data = fst p; config_changed = snd p;
          download_metadata = dict_get config_data ''download_metadata'' (JBool True)
      in if \<not> is_bool download_metadata
         then (dict_set config_data ''download_metadata'' (JBool True), True)
         else (config_data, config_changed))"

definition check_download_comments :: "pydict \<times> bool \<Rightarrow> pydict \<times> bool" where
  "check_download_comments p =
     (let config_data = fst p; config_changed = snd p;
          download_comments = dict_get config_data ''download_comments'' (JBool False)
      in if \<not> is_bool download_comments
         then (dict_set config_data ''download_comments'' (JBool False), True)
         else (config_data, config_changed))"

definition check_download_subtitles :: "pydict \<times> bool \<Rightarrow> pydict \<times> bool" where
  "check_download_subtitles p =
     (let config_data = fst p; config_changed = snd p;
          download_subtitles = dict_get config_data ''download_subtitles'' (JBool False)
      in if \<not> is_bool download_subtitles
         then (dict_set config_data ''download_subtitles'' (JBool False), True)
         else (config_data, config_changed))"

definition check_max_comments :: "pydict \<times> bool \<Rightarrow> error + pydict \<times> bool" where
  \<comment> \<open>\<open>try: int(...), range check; except (ValueError, TypeError): reset; else: store the
      converted value\<close>. Any other exception of \<open>int\<close> leaves the function.\<close>
  "check_max_comments p =
     (let config_data = fst p; config_changed = snd p;
          max_comments = dict_get config_data ''max_comments'' (JInt 200)
      in case py_int max_comments of
           Inl e \<Rightarrow>
             (if e = ValueError \<or> e = TypeError
              then Inr (dict_set config_data ''max_comments'' (JInt 200), True)
              else Inl e)
         | Inr n \<Rightarrow>
             (if n < 1 \<or> n > 10000
              then Inr (dict_set config_data ''max_comments'' (JInt 200), True)
              else Inr (dict_set config_data ''max_comments'' (JInt n), config_changed)))"

definition validate_config :: "pydict \<Rightarrow> error + pydict \<times> bool" where
  \<comment> \<open>\<open>_validate_config\<close>\<close>
  "validate_config config_data =
     check_max_comments
       (check_download_subtitles
         (check_download_comments
           (check_download_metadata
             (check_organize_downloads
               (check_default_format
                 (check_mp3_quality
                   (add_missing_keys DEFAULT_CONFIG (config_data, False))))))))"

text \<open>
  The configuration file is absent or present. Reading a present file
  \<^item> raises \<open>IOError\<close> or \<open>json.JSONDecodeError\<close>, which \<open>load_config\<close> catches
    (\<open>Unparseable\<close>: an unreadable file, an empty or truncated file, text that is not JSON);
  \<^item> raises another exception, which \<open>load_config\<close> does not catch (\<open>Unloadable\<close>: bytes
    that are not UTF-8 raise \<open>UnicodeDecodeError\<close>, an integer literal of more than 4300
    digits raises \<open>ValueError\<close>);
  \<^item> or yields the document that \<open>json.load\<close> returns (\<open>Document\<close>; its integers have at
    most 4300 digits, so \<open>str\<close> of them does not raise).

  A write with \<open>open(CONFIG_FILE, "w")\<close> and \<open>json.dump\<close> has one of three outcomes, all
  inside \<open>try ... except IOError\<close>: it succeeds and the file holds the document; \<open>open\<close>
  raises and the file system is untouched; or \<open>open\<close> has truncated (or created) the file
  and the write raises, which leaves a file with a truncated content, unparseable for
  the next read.
\<close>

datatype file_content = Unparseable | Unloadable error | Document json

datatype write_outcome = WriteOk | OpenFails | WriteFails

record fs_state =
  config_file :: "file_content option"
  on_write :: write_outcome

definition write_config :: "pydict \<Rightarrow> fs_state \<Rightarrow> fs_state" where
  \<comment> \<open>\<open>with open(CONFIG_FILE, "w") as f: json.dump(config_data, f, indent=4)\<close> inside
      \<open>try ... except IOError\<close>\<close>
  "write_config config_data fs =
     (case on_write fs of
        WriteOk \<Rightarrow> fs\<lparr>config_file := Some (Document (JDict config_data))\<rparr>
      | OpenFails \<Rightarrow> fs
      | WriteFails \<Rightarrow> fs\<lparr>config_file := Some Unparseable\<rparr>)"

definition save_config :: "pydict \<Rightarrow> fs_state \<Rightarrow> fs_state" where
  \<comment> \<open>\<open>_save_config\<close>: the failure is logged, not raised\<close>
  "save_config config_data fs = write_config config_data fs"

definition non_dict_error :: "json \<Rightarrow> error" where
  \<comment> \<open>what \<open>_validate_config\<close> raises on a document that is not a dict: the first
      \<open>key not in config_data\<close> or \<open>config_data[key] = ...\<close> raises \<open>TypeError\<close>; a list or
      string that contains every key reaches \<open>config_data.get\<close>, which raises
      \<open>AttributeError\<close>\<close>
  "non_dict_error v =
     (case v of
        JList xs \<Rightarrow>
          (if list_all (\<lambda>k. JStr k \<in> set xs) (map fst DEFAULT_CONFIG)
           then AttributeError else TypeError)
      | JStr s \<Rightarrow>
          (if list_all (\<lambda>k. py_in k s) (map fst DEFAULT_CONFIG)
           then AttributeError else TypeError)
      | _ \<Rightarrow> TypeError)"

definition load_config :: "fs_state \<Rightarrow> (error + pydict) \<times> fs_state" where
  "load_config fs =
     (case config_file fs of
        None \<Rightarrow> (Inr DEFAULT_CONFIG, write_config DEFAULT_CONFIG fs)
      | Some Unparseable \<Rightarrow> (Inr DEFAULT_CONFIG, fs)
      | Some (Unloadable e) \<Rightarrow> (Inl e, fs)
      | Some (Document (JDict config_data)) \<Rightarrow>
          (case validate_config config_data of
             Inl e \<Rightarrow> (Inl e, fs)
           | Inr (config_data', config_changed) \<Rightarrow>
               (if config_changed then (Inr config_data', save_config config_data' fs)
                else (Inr config_data', fs)))
      | Some (Document v) \<Rightarrow> (Inl (non_dict_error v), fs))"

text \<open>The schema of section 3 of the specification, as a predicate on a document.\<close>

definition is_str :: "json \<Rightarrow> bool" where
  "is_str v = (case v of JStr s \<Rightarrow> True | _ \<Rightarrow> False)"

definition field_is :: "(json \<Rightarrow> bool) \<Rightarrow> pydict \<Rightarrow> string \<Rightarrow> bool" where
  \<comment> \<open>the key is present and its value satisfies the predicate\<close>
  "field_is P d key = (case map_of d key of None \<Rightarrow> False | Some v \<Rightarrow> P v)"

definition authentication_valid :: "json \<Rightarrow> bool" where
  "authentication_valid v =
     (case v of
        JDict a \<Rightarrow>
          field_is is_str a ''instagram_username'' \<and> field_is is_bool a ''use_browser_cookies'' \<and>
          field_is is_str a ''cookie_browser'' \<and> field_is is_str a ''session_directory''
      | _ \<Rightarrow> False)"

definition max_comments_valid :: "json \<Rightarrow> bool" where
  "max_comments_valid v = (case v of JInt n \<Rightarrow> 1 \<le> n \<and> n \<le> 10000 | _ \<Rightarrow> False)"

definition schema_valid :: "pydict \<Rightarrow> bool" where
  "schema_valid d =
     (field_is is_str d ''download_directory'' \<and>
      field_is is_str d ''history_file'' \<and>
      field_is (\<lambda>v. v \<in> JStr ` set VALID_DEFAULT_FORMATS) d ''default_format'' \<and>
      field_is (\<lambda>v. v \<in> JStr ` set VALID_MP3_QUALITIES) d ''mp3_quality'' \<and>
      field_is is_bool d ''organize_downloads'' \<and>
      field_is is_bool d ''download_metadata'' \<and>
      field_is is_bool d ''download_comments'' \<and>
      field_is is_bool d ''download_subtitles'' \<and>
      field_is max_comments_valid d ''max_comments'' \<and>
      field_is authentication_valid d ''authentication'')"

text \<open>What the repair pass checks: every key of the default configuration is present and
  the seven validated fields pass the tests of the pass itself.\<close>

definition repaired :: "pydict \<Rightarrow> bool" where
  "repaired d =
     (list_all (\<lambda>key. map_of d key \<noteq> None) (map fst DEFAULT_CONFIG) \<and>
      field_is (\<lambda>v. py_str v \<in> set VALID_MP3_QUALITIES) d ''mp3_quality'' \<and>
      field_is (\<lambda>v. py_lower (py_str v) \<in> set VALID_DEFAULT_FORMATS) d ''default_format'' \<and>
      field_is is_bool d ''organize_downloads'' \<and>
      field_is is_bool d ''download_metadata'' \<and>
      field_is is_bool d ''download_comments'' \<and>
      field_is is_bool d ''download_subtitles'' \<and>
      field_is max_comments_valid d ''max_comments'')"


text \<open>
  Two auxiliary views of the repair pass, used in the proofs: the common shape of its six
  reset blocks, and the pass up to (not including) the \<open>max_comments\<close> block.
\<close>

definition reset_if :: "(json \<Rightarrow> bool) \<Rightarrow> string \<Rightarrow> json \<Rightarrow> json \<Rightarrow> pydict \<times> bool \<Rightarrow> pydict \<times> bool" where
  "reset_if bad key dflt repl p =
     (if bad (dict_get (fst p) key dflt) then (dict_set (fst p) key repl, True) else p)"

definition repaired_pass :: "pydict \<Rightarrow> pydict \<times> bool" where
  "repaired_pass d = 
       (check_download_subtitles
         (check_download_comments
           (check_download_metadata
             (check_organize_downloads
               (check_default_format
                 (check_mp3_quality
                   (add_missing_keys DEFAULT_CONFIG (d, False))))))))"


section \<open>PathOrganizer: \<open>get_organized_download_path\<close> and \<open>get_unique_filename\<close>\<close>

text \<open>Paths are POSIX paths: \<open>os.path.join\<close> and \<open>os.path.splitext\<close> are those of
  \<open>posixpath\<close>.\<close>

fun path_join :: "string \<Rightarrow> string list \<Rightarrow> string" where
  \<comment> \<open>\<open>os.path.join(path, *p)\<close>: an absolute component replaces what came before, any
      other component is appended after one separator\<close>
  "path_join path [] = path"
| "path_join path (b # p) =
     path_join
       (if py_startswith ''/'' b then b
        else if path = [] \<or> last path = CHR ''/'' then path @ b
        else path @ ''/'' @ b) p"

definition sanitize_filename_value :: "json \<Rightarrow> error + string" where
  \<comment> \<open>\<open>sanitize_filename\<close> called with a value that need not be a string: a false value
      takes the first \<open>return\<close>, a true value that is not a string has no \<open>strip\<close>\<close>
  "sanitize_filename_value v =
     (case v of
        JStr s \<Rightarrow> Inr (sanitize_filename s)
      | _ \<Rightarrow> if py_truthy v then Inl AttributeError else Inr ''Unknown'')"

definition get_organized_download_path ::
  "pydict \<Rightarrow> string \<Rightarrow> (string \<Rightarrow> bool) \<Rightarrow> string \<Rightarrow> pydict option \<Rightarrow> string option \<Rightarrow> error + string"
where
  \<comment> \<open>The globals \<open>config\<close> and \<open>download_directory\<close> are the first two arguments;
      \<open>makedirs_ok path\<close> tells whether \<open>os.makedirs(path, exist_ok=True)\<close> returns.\<close>
  "get_organized_download_path config download_directory makedirs_ok url info uploader_override =
     (if \<not> py_truthy (dict_get config ''organize_downloads'' (JBool False))
      then Inr download_directory
      else
        let platform = detect_platform_from_url url;
            uploader =
              (if uploader_override \<noteq> None \<and> uploader_override \<noteq> Some []
               then JStr (the uploader_override)
               else if info \<noteq> None \<and> info \<noteq> Some []
               then dict_get (the info) ''uploader''
                      (dict_get (the info) ''channel'' (JStr ''Unknown''))
               else JStr ''Unknown'')
        in case sanitize_filename_value uploader of
             Inl e \<Rightarrow> Inl e
           | Inr uploader' \<Rightarrow>
               let organized_path = path_join download_directory [platform, uploader']
               in if makedirs_ok organized_path then Inr organized_path else Inl OSError)"

text \<open>\<open>base / platform / uploader\<close> written out: one separator after the base directory
  unless it is empty or ends with one.\<close>

definition organized_dir :: "string \<Rightarrow> string \<Rightarrow> string \<Rightarrow> string" where
  "organized_dir base platform uploader =
     (if base = [] \<or> last base = CHR ''/'' then base else base @ ''/'') @
     platform @ ''/'' @ uploader"

definition rfind :: "char \<Rightarrow> string \<Rightarrow> int" where
  \<comment> \<open>\<open>p.rfind(c)\<close>: the index of the last occurrence, or -1\<close>
  "rfind c p =
     (if c \<in> set p then int (length p) - 1 - int (length (takeWhile (\<lambda>x. x \<noteq> c) (rev p)))
      else - 1)"

definition splitext :: "string \<Rightarrow> string \<times> string" where
  \<comment> \<open>\<open>os.path.splitext\<close>: split at the last dot of the last component, unless only dots
      stand between the last separator and that dot\<close>
  "splitext p =
     (let sepIndex = rfind (CHR ''/'') p;
          dotIndex = rfind (CHR ''.'') p
      in if dotIndex > sepIndex \<and>
            list_ex (\<lambda>c. c \<noteq> CHR ''.'')
              (take (nat (dotIndex - (sepIndex + 1))) (drop (nat (sepIndex + 1)) p))
         then (take (nat dotIndex) p, drop (nat dotIndex) p)
         else (p, []))"

definition candidate :: "string \<Rightarrow> string \<Rightarrow> nat \<Rightarrow> string" where
  \<comment> \<open>the f-string \<open>f"{base} ({counter}){ext}"\<close>\<close>
  "candidate base ext counter = base @ '' ('' @ str_nat counter @ '')'' @ ext"


text \<open>
  The search for an unused name terminates because the file system holds finitely many
  names and distinct counters give distinct candidates: \<open>str\<close> is injective on the
  natural numbers.
\<close>

lemma of_char_digit_char: "d < 10 \<Longrightarrow> of_char (digit_char d) = (48 + d :: nat)"
  by (simp add: digit_char_def)

lemma digits_value_snoc:
  "digits_value (cs @ [c]) = 10 * digits_value cs + (of_char c - 48)"
  by (simp add: digits_value_def)

lemma digits_value_str_nat: "digits_value (str_nat n) = n"
proof (induction n rule: str_nat.induct)
  case (1 n)
  show ?case
  proof (cases "n < 10")
    case True
    then show ?thesis
      by (subst str_nat.simps) (simp add: digits_value_def of_char_digit_char)
  next
    case False
    then have "digits_value (str_nat n) = 10 * digits_value (str_nat (n div 10)) + (of_char (digit_char (n mod 10)) - 48)"
      by (subst str_nat.simps) (simp add: digits_value_snoc)
    also have "\<dots> = 10 * (n div 10) + n mod 10"
      using False "1.IH" by (simp add: of_char_digit_char)
    finally show ?thesis by simp
  qed
qed

lemma str_nat_inj: "str_nat m = str_nat n \<Longrightarrow> m = n"
  by (metis digits_value_str_nat)

lemma candidate_inj: "candidate base ext m = candidate base ext n \<Longrightarrow> m = n"
  by (simp add: candidate_def str_nat_inj)

lemma finite_candidates: "finite {n. candidate base ext n \<in> set fs}"
proof -
  have "inj (candidate base ext)"
    by (rule injI) (rule candidate_inj)
  then have "finite (candidate base ext -` set fs)"
    by (intro finite_vimageI) simp_all
  then show ?thesis
    by (simp add: vimage_def)
qed

text \<open>The file system is the finite list of the paths that exist.\<close>

function unique_loop :: "string list \<Rightarrow> string \<Rightarrow> string \<Rightarrow> nat \<Rightarrow> string" where
  \<comment> \<open>\<open>while os.path.exists(new_filename): counter += 1; new_filename = ...\<close>\<close>
  "unique_loop fs base ext counter =
     (if candidate base ext counter \<in> set fs then unique_loop fs base ext (counter + 1)
      else candidate base ext counter)"
  by pat_completeness auto
termination
proof (relation "measure (\<lambda>(fs, base, ext, counter). card {n. counter \<le> n \<and> candidate base ext n \<in> set fs})")
  show "wf (measure (\<lambda>(fs, base, ext, counter). card {n. counter \<le> n \<and> candidate base ext n \<in> set fs}))"
    by simp
next
  fix fs :: "string list" and base ext :: string and counter :: nat
  assume a: "candidate base ext counter \<in> set fs"
  let ?A = "{n. counter + 1 \<le> n \<and> candidate base ext n \<in> set fs}"
  let ?B = "{n. counter \<le> n \<and> candidate base ext n \<in> set fs}"
  have fin: "finite ?B"
    by (rule finite_subset [OF _ finite_candidates [of base ext fs]]) auto
  have "counter \<in> ?B" "counter \<notin> ?A" "?A \<subseteq> ?B"
    using a by auto
  then have "?A \<subset> ?B"
    by blast
  then have "card ?A < card ?B"
    by (rule psubset_card_mono [OF fin])
  then show "((fs, base, ext, counter + 1), (fs, base, ext, counter))
      \<in> measure (\<lambda>(fs, base, ext, counter). card {n. counter \<le> n \<and> candidate base ext n \<in> set fs})"
    by simp
qed

declare unique_loop.simps [simp del]

definition get_unique_filename :: "string list \<Rightarrow> string \<Rightarrow> string" where
  "get_unique_filename fs filename =
     (if filename \<notin> set fs then filename
      else let (base, ext) = splitext filename in unique_loop fs base ext 1)"


definition makedirs_succeeds :: "string \<Rightarrow> bool" where
  \<comment> \<open>a file system on which every \<open>os.makedirs\<close> returns\<close>
  "makedirs_succeeds path = True"

definition makedirs_fails :: "string \<Rightarrow> bool" where
  \<comment> \<open>a file system on which every \<open>os.makedirs\<close> raises \<open>OSError\<close>\<close>
  "makedirs_fails path = False"


text \<open>
  The tests of the repair pass, as a predicate on the stored document: no key of the
  default configuration is missing and no validated value is invalid. A stored
  \<open>max_comments\<close> is valid for the pass when \<open>int\<close> converts it to an integer from 1 to
  10000.
\<close>

definition int_in_range :: "json \<Rightarrow> bool" where
  "int_in_range v = (case py_int v of Inl e \<Rightarrow> False | Inr n \<Rightarrow> 1 \<le> n \<and> n \<le> 10000)"

definition passes_checks :: "pydict \<Rightarrow> bool" where
  "passes_checks d =
     (list_all (\<lambda>key. map_of d key \<noteq> None) (map fst DEFAULT_CONFIG) \<and>
      field_is (\<lambda>v. py_str v \<in> set VALID_MP3_QUALITIES) d ''mp3_quality'' \<and>
      field_is (\<lambda>v. py_lower (py_str v) \<in> set VALID_DEFAULT_FORMATS) d ''default_format'' \<and>
      field_is is_bool d ''organize_downloads'' \<and>
      field_is is_bool d ''download_metadata'' \<and>
      field_is is_bool d ''download_comments'' \<and>
      field_is is_bool d ''download_subtitles'' \<and>
      field_is int_in_range d ''max_comments'')"

text \<open>
  A document that misses a subset of the recognized keys: every recognized key that it
  holds has a value that satisfies the schema. Its missing keys, and the document
  completed with the default entries of the missing keys, appended in the order of the
  default configuration.
\<close>

definition field_ok :: "(json \<Rightarrow> bool) \<Rightarrow> pydict \<Rightarrow> string \<Rightarrow> bool" where
  \<comment> \<open>the key is absent, or its value satisfies the predicate\<close>
  "field_ok P d key = (case map_of d key of None \<Rightarrow> True | Some v \<Rightarrow> P v)"

definition valid_where_present :: "pydict \<Rightarrow> bool" where
  "valid_where_present d =
     (field_ok is_str d ''download_directory'' \<and>
      field_ok is_str d ''history_file'' \<and>
      field_ok (\<lambda>v. v \<in> JStr ` set VALID_DEFAULT_FORMATS) d ''default_format'' \<and>
      field_ok (\<lambda>v. v \<in> JStr ` set VALID_MP3_QUALITIES) d ''mp3_quality'' \<and>
      field_ok is_bool d ''organize_downloads'' \<and>
      field_ok is_bool d ''download_metadata'' \<and>
      field_ok is_bool d ''download_comments'' \<and>
      field_ok is_bool d ''download_subtitles'' \<and>
      field_ok max_comments_valid d ''max_comments'' \<and>
      field_ok authentication_valid d ''authentication'')"

definition missing_keys :: "pydict \<Rightarrow> string list" where
  "missing_keys d = filter (\<lambda>key. map_of d key = None) (map fst DEFAULT_CONFIG)"

definition with_defaults :: "pydict \<Rightarrow> pydict" where
  "with_defaults d = d @ filter (\<lambda>entry. map_of d (fst entry) = None) DEFAULT_CONFIG"


section \<open>Facts about the string functions\<close>

lemma py_startswith_iff: "py_startswith d s \<longleftrightarrow> (\<exists>q. s = d @ q)"
  by (induction d s rule: py_startswith.induct) auto

lemma py_in_iff: "py_in d s \<longleftrightarrow> (\<exists>p q. s = p @ d @ q)"
proof (induction s)
  case Nil
  show ?case by auto
next
  case (Cons c cs)
  show ?case
  proof
    assume "py_in d (c # cs)"
    then consider "py_startswith d (c # cs)" | "py_in d cs" by auto
    then show "\<exists>p q. c # cs = p @ d @ q"
    proof cases
      case 1
      then obtain q where "c # cs = d @ q" by (auto simp: py_startswith_iff)
      then have "c # cs = [] @ d @ q" by simp
      then show ?thesis by blast
    next
      case 2
      then obtain p q where "cs = p @ d @ q" using Cons.IH by blast
      then have "c # cs = (c # p) @ d @ q" by simp
      then show ?thesis by blast
    qed
  next
    assume "\<exists>p q. c # cs = p @ d @ q"
    then obtain p q where pq: "c # cs = p @ d @ q" by blast
    show "py_in d (c # cs)"
    proof (cases p)
      case Nil
      with pq have "py_startswith d (c # cs)" by (auto simp: py_startswith_iff)
      then show ?thesis by simp
    next
      case (Cons a p')
      with pq have "cs = p' @ d @ q" by simp
      then have "py_in d cs" using Cons.IH by blast
      then show ?thesis by simp
    qed
  qed
qed

lemma all_dropWhile: "(\<forall>x\<in>set (dropWhile P s). P x) \<longleftrightarrow> (\<forall>x\<in>set s. P x)"
  by (induction s) auto

lemma py_strip_ws_Nil_iff:
  "name = [] \<or> py_strip_ws name = [] \<longleftrightarrow> list_all py_isspace name"
  by (auto simp: py_strip_ws_def dropWhile_eq_Nil_conv list_all_iff all_dropWhile)

lemma py_replace_char: "py_replace old [n] s = map (\<lambda>c. if c = old then n else c) s"
  by (induction s) (auto simp: py_replace_def)

lemma fold_replace_invalid:
  "fold (\<lambda>ch nm. py_replace ch ''_'' nm) invalid_chars name =
   map (\<lambda>c. if c \<in> set invalid_chars then CHR ''_'' else c) name"
  by (simp add: invalid_chars_def py_replace_char)

lemma py_strip_dots_spaces:
  "py_strip ''. '' s =
   rev (dropWhile (\<lambda>c. c = CHR ''.'' \<or> c = CHR '' '')
     (rev (dropWhile (\<lambda>c. c = CHR ''.'' \<or> c = CHR '' '') s)))"
  by (simp add: py_strip_def)

lemma take_if: "(if length xs > n then take n xs else xs) = take n xs"
  by simp

lemma if_nonempty_swap: "(if xs \<noteq> [] then xs else d) = (if xs = [] then d else xs)"
  by simp

lemma sanitize_refines: "sanitize_filename name = sanitize_spec name"
proof -
  have c: "(name = [] \<or> py_strip_ws name = []) = list_all py_isspace name"
    by (rule py_strip_ws_Nil_iff)
  show ?thesis
    unfolding sanitize_filename_def sanitize_spec_def Let_def c take_if
      fold_replace_invalid py_strip_dots_spaces if_nonempty_swap
    by (rule refl)
qed

lemma sanitize_length: "length (sanitize_filename name) \<le> 100"
  by (simp add: sanitize_refines sanitize_spec_def Let_def)

lemma detect_loop_find:
  "detect_loop tbl u =
     (case find (\<lambda>entry. py_in (fst entry) u) tbl of
        None \<Rightarrow> ''Other'' | Some entry \<Rightarrow> snd entry)"
  by (induction tbl u rule: detect_loop.induct) auto

lemma py_lower_char_idem: "py_lower_char (py_lower_char c) = py_lower_char c"
  by (auto simp: py_lower_char_def Let_def)

lemma py_lower_idem: "py_lower (py_lower s) = py_lower s"
  by (simp add: py_lower_def py_lower_char_idem)


section \<open>C5: the sanitising pipeline\<close>

text \<open>
  Claim C5. For every input string, \<open>sanitize_filename\<close> is the pipeline of the
  specification: an empty or all-whitespace name gives \<open>Unknown\<close>; otherwise every
  one of the characters \<open><>:"/\|?*\<close> becomes an underscore, leading and trailing dots
  and spaces are stripped, the result is cut to 100 characters, and an empty result
  gives \<open>Unknown\<close>. The result never has more than 100 characters, and the four
  examples of the specification hold: the empty name, \<open>a/b\c\<close>, \<open>.hidden.\<close> and a name
  of 150 letters, which is cut to 100 characters.
\<close>

theorem sanitize_filename_pipeline:
  "sanitize_filename name = sanitize_spec name
   \<and> length (sanitize_filename name) \<le> 100
   \<and> sanitize_filename [] = ''Unknown''
   \<and> sanitize_filename [CHR ''a'', CHR ''/'', CHR ''b'', CHR 0x5C, CHR ''c''] = ''a_b_c''
   \<and> sanitize_filename ''.hidden.'' = ''hidden''
   \<and> length (sanitize_filename (replicate 150 (CHR ''a''))) = 100"
proof -
  have e1: "sanitize_filename [] = ''Unknown''"
    by (simp add: sanitize_filename_def)
  have e2: "sanitize_filename [CHR ''a'', CHR ''/'', CHR ''b'', CHR 0x5C, CHR ''c''] = ''a_b_c''"
    by (simp add: sanitize_filename_def py_strip_ws_def py_isspace_def py_strip_def
        invalid_chars_def py_replace_def)
  have e3: "sanitize_filename ''.hidden.'' = ''hidden''"
    by (simp add: sanitize_filename_def py_strip_ws_def py_isspace_def py_strip_def
        invalid_chars_def py_replace_def)
  have e4: "length (sanitize_filename (replicate 150 (CHR ''a''))) = 100"
    by (simp add: sanitize_refines sanitize_spec_def py_isspace_def invalid_chars_def
        list_all_iff)
  from sanitize_refines sanitize_length e1 e2 e3 e4 show ?thesis
    by blast
qed


section \<open>C6: platform detection\<close>

text \<open>
  Claim C6. For every URL, \<open>detect_platform_from_url\<close> returns the label of the first
  entry of the ordered table whose domain fragment is a substring of the lower-cased
  URL, and \<open>Other\<close> when no entry matches. The match ignores case: the fragments of the
  table are lower-case and the URL is lower-cased first, so a URL and its lower-cased
  form get the same label. The two examples of the specification hold.
\<close>

theorem detect_platform_first_match:
  "detect_platform_from_url url = detect_spec url
   \<and> detect_platform_from_url (py_lower url) = detect_platform_from_url url
   \<and> list_all (\<lambda>entry. py_lower (fst entry) = fst entry) platform_map
   \<and> detect_platform_from_url ''https://youtu.be/xyz'' = ''YouTube''
   \<and> detect_platform_from_url ''HTTPS://YOUTU.BE/xyz'' = ''YouTube''
   \<and> detect_platform_from_url ''https://example.com/video'' = ''Other''"
proof -
  have a: "detect_platform_from_url url = detect_spec url"
    by (simp add: detect_platform_from_url_def detect_spec_def detect_loop_find)
  have b: "detect_platform_from_url (py_lower url) = detect_platform_from_url url"
    by (simp add: detect_platform_from_url_def py_lower_idem)
  have c: "list_all (\<lambda>entry. py_lower (fst entry) = fst entry) platform_map"
    by code_simp
  have d: "detect_platform_from_url ''https://youtu.be/xyz'' = ''YouTube''"
    by code_simp
  have e: "detect_platform_from_url ''HTTPS://YOUTU.BE/xyz'' = ''YouTube''"
    by code_simp
  have f: "detect_platform_from_url ''https://example.com/video'' = ''Other''"
    by code_simp
  from a b c d e f show ?thesis
    by blast
qed


section \<open>Facts about the repair pass\<close>

lemma map_of_dict_set: "map_of (dict_set d k v) = (map_of d)(k \<mapsto> v)"
  by (simp add: dict_set_def update_conv')

lemma dict_set_same: "map_of d k = Some v \<Longrightarrow> dict_set d k v = d"
  by (simp add: dict_set_def update_triv)

lemma add_missing_map:
  "map_of (fst (add_missing_keys ds (d, ch))) = map_of ds ++ map_of d"
proof (induction ds arbitrary: d ch)
  case Nil
  show ?case by simp
next
  case (Cons a ds)
  obtain key dv where a: "a = (key, dv)" by (cases a)
  show ?case
  proof (cases "map_of d key")
    case None
    have "map_of (fst (add_missing_keys (a # ds) (d, ch))) = map_of ds ++ map_of (dict_set d key dv)"
      using None Cons.IH by (simp add: a)
    also have "\<dots> = map_of (a # ds) ++ map_of d"
      using None by (auto simp: a map_of_dict_set map_add_def fun_eq_iff split: option.splits)
    finally show ?thesis .
  next
    case (Some v)
    have "map_of (fst (add_missing_keys (a # ds) (d, ch))) = map_of ds ++ map_of d"
      using Some Cons.IH by (simp add: a)
    also have "\<dots> = map_of (a # ds) ++ map_of d"
      using Some by (auto simp: a map_add_def fun_eq_iff split: option.splits)
    finally show ?thesis .
  qed
qed

lemma add_missing_id:
  "list_all (\<lambda>k. map_of d k \<noteq> None) (map fst ds) \<Longrightarrow> add_missing_keys ds (d, ch) = (d, ch)"
  by (induction ds) auto

lemma add_missing_changed:
  "snd (add_missing_keys ds (d, ch)) \<longleftrightarrow> ch \<or> list_ex (\<lambda>k. map_of d k = None) (map fst ds)"
proof (induction ds arbitrary: d ch)
  case Nil
  show ?case by simp
next
  case (Cons a ds)
  obtain key dv where a: "a = (key, dv)" by (cases a)
  show ?case
    by (cases "map_of d key") (simp_all add: a Cons.IH)
qed

lemma map_of_reset_if:
  "map_of (fst (reset_if bad key dflt repl p)) k =
     (if k = key \<and> bad (dict_get (fst p) key dflt) then Some repl else map_of (fst p) k)"
  by (simp add: reset_if_def map_of_dict_set)

lemma field_is_reset_if:
  "field_is P (fst (reset_if bad key dflt repl p)) k =
     (if k = key \<and> bad (dict_get (fst p) key dflt) then P repl else field_is P (fst p) k)"
  by (simp add: field_is_def map_of_reset_if)

lemma reset_if_id:
  "field_is (\<lambda>v. \<not> bad v) (fst p) key \<Longrightarrow> reset_if bad key dflt repl p = p"
  by (auto simp: reset_if_def field_is_def dict_get_def split: option.splits)

lemma snd_reset_if:
  "snd (reset_if bad key dflt repl p) \<longleftrightarrow> snd p \<or> bad (dict_get (fst p) key dflt)"
  by (simp add: reset_if_def)

lemma field_is_present: "map_of d k \<noteq> None \<Longrightarrow> field_is P d k = P (dict_get d k dflt)"
  by (auto simp: field_is_def dict_get_def)

lemma check_mp3_quality_reset:
  "check_mp3_quality = reset_if (\<lambda>v. py_str v \<notin> set VALID_MP3_QUALITIES) ''mp3_quality'' (JStr ''192'') (JStr ''192'')"
  by (rule ext) (simp add: check_mp3_quality_def reset_if_def Let_def prod_eq_iff)

lemma check_default_format_reset:
  "check_default_format = reset_if (\<lambda>v. py_lower (py_str v) \<notin> set VALID_DEFAULT_FORMATS) ''default_format'' (JStr ''show_all'') (JStr ''show_all'')"
  by (rule ext) (simp add: check_default_format_def reset_if_def Let_def prod_eq_iff)

lemma check_organize_downloads_reset:
  "check_organize_downloads = reset_if (\<lambda>v. \<not> is_bool v) ''organize_downloads'' (JBool False) (JBool False)"
  by (rule ext) (simp add: check_organize_downloads_def reset_if_def Let_def prod_eq_iff)

lemma check_download_metadata_reset:
  "check_download_metadata = reset_if (\<lambda>v. \<not> is_bool v) ''download_metadata'' (JBool True) (JBool True)"
  by (rule ext) (simp add: check_download_metadata_def reset_if_def Let_def prod_eq_iff)

lemma check_download_comments_reset:
  "check_download_comments = reset_if (\<lambda>v. \<not> is_bool v) ''download_comments'' (JBool False) (JBool False)"
  by (rule ext) (simp add: check_download_comments_def reset_if_def Let_def prod_eq_iff)

lemma check_download_subtitles_reset:
  "check_download_subtitles = reset_if (\<lambda>v. \<not> is_bool v) ''download_subtitles'' (JBool False) (JBool False)"
  by (rule ext) (simp add: check_download_subtitles_def reset_if_def Let_def prod_eq_iff)

lemmas check_resets = check_mp3_quality_reset check_default_format_reset
  check_organize_downloads_reset check_download_metadata_reset check_download_comments_reset
  check_download_subtitles_reset

lemma check_max_comments_other:
  "check_max_comments p = Inr q \<Longrightarrow> k \<noteq> ''max_comments'' \<Longrightarrow> map_of (fst q) k = map_of (fst p) k"
  by (auto simp: check_max_comments_def Let_def map_of_dict_set split: sum.splits if_splits)

lemma check_max_comments_valid:
  "check_max_comments p = Inr q \<Longrightarrow> field_is max_comments_valid (fst q) ''max_comments''"
  by (auto simp: check_max_comments_def Let_def map_of_dict_set field_is_def max_comments_valid_def
      split: sum.splits if_splits)

lemma check_max_comments_id:
  "field_is max_comments_valid (fst p) ''max_comments'' \<Longrightarrow> check_max_comments p = Inr p"
  by (auto simp: check_max_comments_def Let_def field_is_def max_comments_valid_def dict_get_def
      py_int_def dict_set_same prod_eq_iff split: option.splits json.splits)

lemma validate_split: "validate_config d = check_max_comments (repaired_pass d)"
  by (simp add: validate_config_def repaired_pass_def)

lemma default_keys:
  "map fst DEFAULT_CONFIG = [''default_format'', ''download_directory'', ''history_file'',
     ''mp3_quality'', ''organize_downloads'', ''download_metadata'', ''download_comments'',
     ''download_subtitles'', ''max_comments'', ''authentication'']"
  by (simp add: DEFAULT_CONFIG_def)

lemma add_missing_present:
  "k \<in> set (map fst DEFAULT_CONFIG) \<Longrightarrow> map_of (fst (add_missing_keys DEFAULT_CONFIG (d, ch))) k \<noteq> None"
proof -
  assume "k \<in> set (map fst DEFAULT_CONFIG)"
  then have "map_of DEFAULT_CONFIG k \<noteq> None"
    by (simp add: map_of_eq_None_iff)
  then show ?thesis
    by (auto simp: add_missing_map map_add_def split: option.splits)
qed

lemma add_missing_other:
  "k \<notin> set (map fst DEFAULT_CONFIG) \<Longrightarrow> map_of (fst (add_missing_keys DEFAULT_CONFIG (d, ch))) k = map_of d k"
proof -
  assume "k \<notin> set (map fst DEFAULT_CONFIG)"
  then have "map_of DEFAULT_CONFIG k = None"
    by (simp add: map_of_eq_None_iff)
  then show ?thesis
    by (auto simp: add_missing_map map_add_def split: option.splits)
qed

lemma pass_present:
  assumes "k \<in> set (map fst DEFAULT_CONFIG)"
  shows "map_of (fst (repaired_pass d)) k \<noteq> None"
  using add_missing_present [OF assms, of d False]
  by (simp add: repaired_pass_def check_resets map_of_reset_if)

lemma pass_other:
  assumes "k \<notin> set (map fst DEFAULT_CONFIG)"
  shows "map_of (fst (repaired_pass d)) k = map_of d k"
  using add_missing_other [OF assms, of d False] assms
  by (simp add: repaired_pass_def check_resets map_of_reset_if default_keys)

lemma reset_if_establishes:
  "map_of (fst p) key \<noteq> None \<Longrightarrow> \<not> bad repl \<Longrightarrow>
   field_is (\<lambda>v. \<not> bad v) (fst (reset_if bad key dflt repl p)) key"
  unfolding field_is_reset_if by (auto simp: field_is_def dict_get_def)

lemma pass_mp3_quality:
  "field_is (\<lambda>v. py_str v \<in> set VALID_MP3_QUALITIES) (fst (repaired_pass d)) ''mp3_quality''"
proof -
  let ?p0 = "add_missing_keys DEFAULT_CONFIG (d, False)"
  have pres: "map_of (fst ?p0) ''mp3_quality'' \<noteq> None"
    by (rule add_missing_present) (simp add: default_keys)
  have "field_is (\<lambda>v. \<not> py_str v \<notin> set VALID_MP3_QUALITIES) (fst (check_mp3_quality ?p0)) ''mp3_quality''"
    unfolding check_mp3_quality_reset
    by (rule reset_if_establishes [OF pres]) (simp add: py_str_def VALID_MP3_QUALITIES_def)
  then show ?thesis
    by (simp add: repaired_pass_def check_default_format_reset check_organize_downloads_reset
        check_download_metadata_reset check_download_comments_reset
        check_download_subtitles_reset field_is_reset_if)
qed

lemma pass_default_format:
  "field_is (\<lambda>v. py_lower (py_str v) \<in> set VALID_DEFAULT_FORMATS) (fst (repaired_pass d)) ''default_format''"
proof -
  let ?p1 = "check_mp3_quality (add_missing_keys DEFAULT_CONFIG (d, False))"
  have "map_of (fst (add_missing_keys DEFAULT_CONFIG (d, False))) ''default_format'' \<noteq> None"
    by (rule add_missing_present) (simp add: default_keys)
  then have pres: "map_of (fst ?p1) ''default_format'' \<noteq> None"
    by (simp add: check_mp3_quality_reset map_of_reset_if)
  have low: "py_lower ''show_all'' = ''show_all''"
    by code_simp
  have "field_is (\<lambda>v. \<not> py_lower (py_str v) \<notin> set VALID_DEFAULT_FORMATS)
          (fst (check_default_format ?p1)) ''default_format''"
    unfolding check_default_format_reset
    by (rule reset_if_establishes [OF pres]) (simp add: py_str_def low VALID_DEFAULT_FORMATS_def)
  then show ?thesis
    by (simp add: repaired_pass_def check_organize_downloads_reset
        check_download_metadata_reset check_download_comments_reset
        check_download_subtitles_reset field_is_reset_if)
qed

lemma pass_bools:
  "field_is is_bool (fst (repaired_pass d)) ''organize_downloads''"
  "field_is is_bool (fst (repaired_pass d)) ''download_metadata''"
  "field_is is_bool (fst (repaired_pass d)) ''download_comments''"
  "field_is is_bool (fst (repaired_pass d)) ''download_subtitles''"
proof -
  let ?p0 = "add_missing_keys DEFAULT_CONFIG (d, False)"
  have pres: "\<And>k. k \<in> set (map fst DEFAULT_CONFIG) \<Longrightarrow> map_of (fst ?p0) k \<noteq> None"
    by (rule add_missing_present)
  have est: "\<And>p key dflt repl. map_of (fst p) key \<noteq> None \<Longrightarrow> is_bool repl \<Longrightarrow>
      field_is is_bool (fst (reset_if (\<lambda>v. \<not> is_bool v) key dflt repl p)) key"
    using reset_if_establishes [where bad = "\<lambda>v. \<not> is_bool v"] by simp
  have b: "is_bool (JBool x)" for x
    by (simp add: is_bool_def)
  let ?p2 = "check_default_format (check_mp3_quality ?p0)"
  have pres2: "\<And>k. k \<in> set (map fst DEFAULT_CONFIG) \<Longrightarrow> map_of (fst ?p2) k \<noteq> None"
    using pres by (simp add: check_mp3_quality_reset check_default_format_reset map_of_reset_if)
  have "field_is is_bool (fst (check_organize_downloads ?p2)) ''organize_downloads''"
    unfolding check_organize_downloads_reset
    by (rule est [OF pres2 b]) (simp add: default_keys)
  then show "field_is is_bool (fst (repaired_pass d)) ''organize_downloads''"
    by (simp add: repaired_pass_def check_download_metadata_reset check_download_comments_reset
        check_download_subtitles_reset field_is_reset_if)
  let ?p3 = "check_organize_downloads ?p2"
  have pres3: "\<And>k. k \<in> set (map fst DEFAULT_CONFIG) \<Longrightarrow> map_of (fst ?p3) k \<noteq> None"
    using pres2 by (simp add: check_organize_downloads_reset map_of_reset_if)
  have "field_is is_bool (fst (check_download_metadata ?p3)) ''download_metadata''"
    unfolding check_download_metadata_reset
    by (rule est [OF pres3 b]) (simp add: default_keys)
  then show "field_is is_bool (fst (repaired_pass d)) ''download_metadata''"
    by (simp add: repaired_pass_def check_download_comments_reset
        check_download_subtitles_reset field_is_reset_if)
  let ?p4 = "check_download_metadata ?p3"
  have pres4: "\<And>k. k \<in> set (map fst DEFAULT_CONFIG) \<Longrightarrow> map_of (fst ?p4) k \<noteq> None"
    using pres3 by (simp add: check_download_metadata_reset map_of_reset_if)
  have "field_is is_bool (fst (check_download_comments ?p4)) ''download_comments''"
    unfolding check_download_comments_reset
    by (rule est [OF pres4 b]) (simp add: default_keys)
  then show "field_is is_bool (fst (repaired_pass d)) ''download_comments''"
    by (simp add: repaired_pass_def check_download_subtitles_reset field_is_reset_if)
  let ?p5 = "check_download_comments ?p4"
  have pres5: "\<And>k. k \<in> set (map fst DEFAULT_CONFIG) \<Longrightarrow> map_of (fst ?p5) k \<noteq> None"
    using pres4 by (simp add: check_download_comments_reset map_of_reset_if)
  have "field_is is_bool (fst (check_download_subtitles ?p5)) ''download_subtitles''"
    unfolding check_download_subtitles_reset
    by (rule est [OF pres5 b]) (simp add: default_keys)
  then show "field_is is_bool (fst (repaired_pass d)) ''download_subtitles''"
    by (simp add: repaired_pass_def)
qed

lemma field_is_cong_map:
  "map_of d' k = map_of d k \<Longrightarrow> field_is P d' k = field_is P d k"
  by (simp add: field_is_def)

lemma validate_repaired:
  assumes "validate_config d = Inr (d', ch)"
  shows "repaired d'"
proof -
  from assms have q: "check_max_comments (repaired_pass d) = Inr (d', ch)"
    by (simp add: validate_split)
  have oth: "map_of d' k = map_of (fst (repaired_pass d)) k" if "k \<noteq> ''max_comments''" for k
    using check_max_comments_other [OF q that] by simp
  have mc: "field_is max_comments_valid d' ''max_comments''"
    using check_max_comments_valid [OF q] by simp
  have pres: "map_of d' k \<noteq> None" if "k \<in> set (map fst DEFAULT_CONFIG)" for k
  proof (cases "k = ''max_comments''")
    case True
    with mc show ?thesis by (auto simp: field_is_def split: option.splits)
  next
    case False
    with oth pass_present [OF that] show ?thesis by simp
  qed
  have keys: "list_all (\<lambda>key. map_of d' key \<noteq> None) (map fst DEFAULT_CONFIG)"
    using pres by (simp add: list_all_iff)
  have f1: "field_is (\<lambda>v. py_str v \<in> set VALID_MP3_QUALITIES) d' ''mp3_quality''"
    using pass_mp3_quality [of d] by (simp add: field_is_cong_map [OF oth])
  have f2: "field_is (\<lambda>v. py_lower (py_str v) \<in> set VALID_DEFAULT_FORMATS) d' ''default_format''"
    using pass_default_format [of d] by (simp add: field_is_cong_map [OF oth])
  have f3: "field_is is_bool d' ''organize_downloads''"
    using pass_bools(1) [of d] by (simp add: field_is_cong_map [OF oth])
  have f4: "field_is is_bool d' ''download_metadata''"
    using pass_bools(2) [of d] by (simp add: field_is_cong_map [OF oth])
  have f5: "field_is is_bool d' ''download_comments''"
    using pass_bools(3) [of d] by (simp add: field_is_cong_map [OF oth])
  have f6: "field_is is_bool d' ''download_subtitles''"
    using pass_bools(4) [of d] by (simp add: field_is_cong_map [OF oth])
  from keys f1 f2 f3 f4 f5 f6 mc show ?thesis
    by (simp add: repaired_def)
qed

lemma repaired_fixpoint:
  assumes "repaired d"
  shows "validate_config d = Inr (d, False)"
proof -
  from assms have keys: "list_all (\<lambda>key. map_of d key \<noteq> None) (map fst DEFAULT_CONFIG)"
    and f1: "field_is (\<lambda>v. \<not> py_str v \<notin> set VALID_MP3_QUALITIES) d ''mp3_quality''"
    and f2: "field_is (\<lambda>v. \<not> py_lower (py_str v) \<notin> set VALID_DEFAULT_FORMATS) d ''default_format''"
    and f3: "field_is (\<lambda>v. \<not> \<not> is_bool v) d ''organize_downloads''"
    and f4: "field_is (\<lambda>v. \<not> \<not> is_bool v) d ''download_metadata''"
    and f5: "field_is (\<lambda>v. \<not> \<not> is_bool v) d ''download_comments''"
    and f6: "field_is (\<lambda>v. \<not> \<not> is_bool v) d ''download_subtitles''"
    and mc: "field_is max_comments_valid d ''max_comments''"
    by (simp_all add: repaired_def)
  have "repaired_pass d = (d, False)"
    unfolding repaired_pass_def check_resets
    using f1 f2 f3 f4 f5 f6 by (simp add: add_missing_id [OF keys] reset_if_id)
  then show ?thesis
    using mc by (simp add: validate_split check_max_comments_id)
qed

lemma validate_other:
  assumes "validate_config d = Inr (d', ch)" and "k \<notin> set (map fst DEFAULT_CONFIG)"
  shows "map_of d' k = map_of d k"
proof -
  from assms(1) have q: "check_max_comments (repaired_pass d) = Inr (d', ch)"
    by (simp add: validate_split)
  from assms(2) have "k \<noteq> ''max_comments''"
    by (auto simp: default_keys)
  from check_max_comments_other [OF q this] pass_other [OF assms(2)] show ?thesis
    by simp
qed

lemma add_missing_at:
  "map_of (fst (add_missing_keys DEFAULT_CONFIG (d, ch))) k =
     (case map_of d k of None \<Rightarrow> map_of DEFAULT_CONFIG k | Some v \<Rightarrow> Some v)"
  by (simp add: add_missing_map map_add_def)

lemma pass_max_comments_stored:
  "map_of d ''max_comments'' = Some v \<Longrightarrow> dict_get (fst (repaired_pass d)) ''max_comments'' dflt = v"
  by (simp add: repaired_pass_def check_resets dict_get_def map_of_reset_if add_missing_at)

lemma default_bools:
  "map_of DEFAULT_CONFIG ''organize_downloads'' = Some (JBool True)"
  "map_of DEFAULT_CONFIG ''download_metadata'' = Some (JBool True)"
  "map_of DEFAULT_CONFIG ''download_comments'' = Some (JBool False)"
  "map_of DEFAULT_CONFIG ''download_subtitles'' = Some (JBool False)"
  by (simp_all add: DEFAULT_CONFIG_def)

lemma pass_organize_downloads:
  "map_of (fst (repaired_pass d)) ''organize_downloads'' =
     (case map_of d ''organize_downloads'' of
        None \<Rightarrow> Some (JBool True)
      | Some v \<Rightarrow> if is_bool v then Some v else Some (JBool False))"
proof (cases "map_of d ''organize_downloads''")
  case None
  then show ?thesis
    by (simp add: repaired_pass_def check_resets dict_get_def map_of_reset_if add_missing_at
        default_bools is_bool_def)
next
  case (Some v)
  then show ?thesis
    by (simp add: repaired_pass_def check_resets dict_get_def map_of_reset_if add_missing_at)
qed

lemma pass_download_metadata:
  "map_of (fst (repaired_pass d)) ''download_metadata'' =
     (case map_of d ''download_metadata'' of
        None \<Rightarrow> Some (JBool True)
      | Some v \<Rightarrow> if is_bool v then Some v else Some (JBool True))"
proof (cases "map_of d ''download_metadata''")
  case None
  then show ?thesis
    by (simp add: repaired_pass_def check_resets dict_get_def map_of_reset_if add_missing_at
        default_bools is_bool_def)
next
  case (Some v)
  then show ?thesis
    by (simp add: repaired_pass_def check_resets dict_get_def map_of_reset_if add_missing_at)
qed

lemma pass_download_comments:
  "map_of (fst (repaired_pass d)) ''download_comments'' =
     (case map_of d ''download_comments'' of
        None \<Rightarrow> Some (JBool False)
      | Some v \<Rightarrow> if is_bool v then Some v else Some (JBool False))"
proof (cases "map_of d ''download_comments''")
  case None
  then show ?thesis
    by (simp add: repaired_pass_def check_resets dict_get_def map_of_reset_if add_missing_at
        default_bools is_bool_def)
next
  case (Some v)
  then show ?thesis
    by (simp add: repaired_pass_def check_resets dict_get_def map_of_reset_if add_missing_at)
qed

lemma pass_download_subtitles:
  "map_of (fst (repaired_pass d)) ''download_subtitles'' =
     (case map_of d ''download_subtitles'' of
        None \<Rightarrow> Some (JBool False)
      | Some v \<Rightarrow> if is_bool v then Some v else Some (JBool False))"
proof (cases "map_of d ''download_subtitles''")
  case None
  then show ?thesis
    by (simp add: repaired_pass_def check_resets dict_get_def map_of_reset_if add_missing_at
        default_bools is_bool_def)
next
  case (Some v)
  then show ?thesis
    by (simp add: repaired_pass_def check_resets dict_get_def map_of_reset_if add_missing_at)
qed


lemma check_max_comments_result:
  "check_max_comments p =
     (case py_int (dict_get (fst p) ''max_comments'' (JInt 200)) of
        Inl e \<Rightarrow> if e = ValueError \<or> e = TypeError
                 then Inr (dict_set (fst p) ''max_comments'' (JInt 200), True) else Inl e
      | Inr n \<Rightarrow> if n < 1 \<or> n > 10000
                 then Inr (dict_set (fst p) ''max_comments'' (JInt 200), True)
                 else Inr (dict_set (fst p) ''max_comments'' (JInt n), snd p))"
  by (simp add: check_max_comments_def Let_def)

lemma max_comments_repair_aux:
  assumes "map_of d ''max_comments'' = Some v"
  shows "validate_config d =
     (case py_int v of
        Inl e \<Rightarrow> if e = ValueError \<or> e = TypeError
                 then Inr (dict_set (fst (repaired_pass d)) ''max_comments'' (JInt 200), True) else Inl e
      | Inr n \<Rightarrow> if n < 1 \<or> n > 10000
                 then Inr (dict_set (fst (repaired_pass d)) ''max_comments'' (JInt 200), True)
                 else Inr (dict_set (fst (repaired_pass d)) ''max_comments'' (JInt n), snd (repaired_pass d)))"
  unfolding validate_split check_max_comments_result pass_max_comments_stored [OF assms]
  by (rule refl)


section \<open>C2: the boolean fields\<close>

lemma bool_fields_repair:
  assumes "validate_config d = Inr (d', ch)"
  shows "map_of d' ''organize_downloads'' =
           (case map_of d ''organize_downloads'' of
              None \<Rightarrow> Some (JBool True)
            | Some v \<Rightarrow> if is_bool v then Some v else Some (JBool False))"
    and "map_of d' ''download_metadata'' =
           (case map_of d ''download_metadata'' of
              None \<Rightarrow> Some (JBool True)
            | Some v \<Rightarrow> if is_bool v then Some v else Some (JBool True))"
    and "map_of d' ''download_comments'' =
           (case map_of d ''download_comments'' of
              None \<Rightarrow> Some (JBool False)
            | Some v \<Rightarrow> if is_bool v then Some v else Some (JBool False))"
    and "map_of d' ''download_subtitles'' =
           (case map_of d ''download_subtitles'' of
              None \<Rightarrow> Some (JBool False)
            | Some v \<Rightarrow> if is_bool v then Some v else Some (JBool False))"
proof -
  from assms have q: "check_max_comments (repaired_pass d) = Inr (d', ch)"
    by (simp add: validate_split)
  have oth: "map_of d' k = map_of (fst (repaired_pass d)) k" if "k \<noteq> ''max_comments''" for k
    using check_max_comments_other [OF q that] by simp
  show "map_of d' ''organize_downloads'' =
           (case map_of d ''organize_downloads'' of
              None \<Rightarrow> Some (JBool True)
            | Some v \<Rightarrow> if is_bool v then Some v else Some (JBool False))"
    by (simp add: oth pass_organize_downloads)
  show "map_of d' ''download_metadata'' =
           (case map_of d ''download_metadata'' of
              None \<Rightarrow> Some (JBool True)
            | Some v \<Rightarrow> if is_bool v then Some v else Some (JBool True))"
    by (simp add: oth pass_download_metadata)
  show "map_of d' ''download_comments'' =
           (case map_of d ''download_comments'' of
              None \<Rightarrow> Some (JBool False)
            | Some v \<Rightarrow> if is_bool v then Some v else Some (JBool False))"
    by (simp add: oth pass_download_comments)
  show "map_of d' ''download_subtitles'' =
           (case map_of d ''download_subtitles'' of
              None \<Rightarrow> Some (JBool False)
            | Some v \<Rightarrow> if is_bool v then Some v else Some (JBool False))"
    by (simp add: oth pass_download_subtitles)
qed

text \<open>
  Claim C2 says that a non-boolean value of one of the four switches is reset to the
  value the switch has in the default configuration. For \<open>download_metadata\<close>,
  \<open>download_comments\<close> and \<open>download_subtitles\<close> the repair pass does so, and it leaves
  booleans unchanged (lemma \<open>bool_fields_repair\<close>). For \<open>organize_downloads\<close> the pass
  stores \<open>False\<close>, while the default configuration holds \<open>True\<close>: the evaluation below is
  the pass on the default document with \<open>organize_downloads\<close> set to the string \<open>yes\<close>.
\<close>

theorem organize_downloads_reset_value:
  "validate_config (dict_set DEFAULT_CONFIG ''organize_downloads'' (JStr ''yes'')) =
     Inr (dict_set DEFAULT_CONFIG ''organize_downloads'' (JBool False), True)
   \<and> map_of DEFAULT_CONFIG ''organize_downloads'' = Some (JBool True)
   \<and> validate_config (dict_set DEFAULT_CONFIG ''download_metadata'' (JStr ''yes'')) =
     Inr (DEFAULT_CONFIG, True)"
  by code_simp


section \<open>C3: the repair of \<open>max_comments\<close>\<close>

text \<open>
  Claim C3 says that every stored \<open>max_comments\<close> that is not an integer is repaired to
  200. The pass converts the stored value with \<open>int\<close> first: the boolean \<open>true\<close> becomes 1
  and the float 3.7 becomes 3, both in range, so they are kept as 1 and 3 (and the pass
  does not flag a change).
\<close>

theorem max_comments_non_integer_counterexample:
  "validate_config (dict_set DEFAULT_CONFIG ''max_comments'' (JBool True)) =
     Inr (dict_set DEFAULT_CONFIG ''max_comments'' (JInt 1), False)
   \<and> validate_config (dict_set DEFAULT_CONFIG ''max_comments'' (JFloat (PyFloat False [3, 7] 1))) =
     Inr (dict_set DEFAULT_CONFIG ''max_comments'' (JInt 3), False)
   \<and> map_of (dict_set DEFAULT_CONFIG ''max_comments'' (JInt 1)) ''max_comments'' = Some (JInt 1)
   \<and> map_of (dict_set DEFAULT_CONFIG ''max_comments'' (JInt 3)) ''max_comments'' = Some (JInt 3)"
  by code_simp

text \<open>
  Claim C3, amended. For every document with a stored \<open>max_comments\<close> value \<open>v\<close>: when
  \<open>int(v)\<close> raises \<open>ValueError\<close> or \<open>TypeError\<close> (null, a list, an object, a string that is
  not a decimal integer, NaN), or yields an integer below 1 or above 10000, the repair
  pass returns, flags a change and stores 200; when \<open>int(v)\<close> yields an integer \<open>n\<close> from 1
  to 10000 (an integer, a boolean, a float truncated towards zero, a string of digits),
  the pass returns and stores \<open>n\<close>.
\<close>

theorem max_comments_repair:
  assumes "map_of d ''max_comments'' = Some v"
  shows "(py_int v = Inl ValueError \<or> py_int v = Inl TypeError \<longrightarrow>
            (\<exists>d'. validate_config d = Inr (d', True) \<and> map_of d' ''max_comments'' = Some (JInt 200)))
       \<and> (\<forall>n. py_int v = Inr n \<and> (n < 1 \<or> n > 10000) \<longrightarrow>
            (\<exists>d'. validate_config d = Inr (d', True) \<and> map_of d' ''max_comments'' = Some (JInt 200)))
       \<and> (\<forall>n. py_int v = Inr n \<and> 1 \<le> n \<and> n \<le> 10000 \<longrightarrow>
            (\<exists>d' ch. validate_config d = Inr (d', ch) \<and> map_of d' ''max_comments'' = Some (JInt n)))"
proof (intro conjI allI impI)
  assume "py_int v = Inl ValueError \<or> py_int v = Inl TypeError"
  then show "\<exists>d'. validate_config d = Inr (d', True) \<and> map_of d' ''max_comments'' = Some (JInt 200)"
    by (auto simp: max_comments_repair_aux [OF assms] map_of_dict_set)
next
  fix n assume "py_int v = Inr n \<and> (n < 1 \<or> n > 10000)"
  then show "\<exists>d'. validate_config d = Inr (d', True) \<and> map_of d' ''max_comments'' = Some (JInt 200)"
    by (auto simp: max_comments_repair_aux [OF assms] map_of_dict_set)
next
  fix n assume "py_int v = Inr n \<and> 1 \<le> n \<and> n \<le> 10000"
  then show "\<exists>d' ch. validate_config d = Inr (d', ch) \<and> map_of d' ''max_comments'' = Some (JInt n)"
    by (auto simp: max_comments_repair_aux [OF assms] map_of_dict_set)
qed

theorem max_comments_repair_witness:
  "(\<exists>d'. validate_config [(''max_comments'', JStr ''many'')] = Inr (d', True) \<and>
         map_of d' ''max_comments'' = Some (JInt 200))
   \<and> (\<exists>d'. validate_config [(''max_comments'', JNull)] = Inr (d', True) \<and>
         map_of d' ''max_comments'' = Some (JInt 200))
   \<and> (\<exists>d'. validate_config [(''max_comments'', JInt 10001)] = Inr (d', True) \<and>
         map_of d' ''max_comments'' = Some (JInt 200))
   \<and> (\<exists>d' ch. validate_config [(''max_comments'', JStr ''50'')] = Inr (d', ch) \<and>
         map_of d' ''max_comments'' = Some (JInt 50))"
proof -
  have m: "map_of [(''max_comments'', v)] ''max_comments'' = Some v" for v :: json
    by simp
  have e1: "py_int (JStr ''many'') = Inl ValueError"
    by code_simp
  have e2: "py_int JNull = Inl TypeError"
    by code_simp
  have e3: "py_int (JInt 10001) = Inr 10001 \<and> ((10001::int) < 1 \<or> (10001::int) > 10000)"
    by code_simp
  have e4: "py_int (JStr ''50'') = Inr 50 \<and> (1::int) \<le> 50 \<and> (50::int) \<le> 10000"
    by code_simp
  from max_comments_repair [OF m, of "JStr ''many''"] e1
  have c1: "\<exists>d'. validate_config [(''max_comments'', JStr ''many'')] = Inr (d', True) \<and>
         map_of d' ''max_comments'' = Some (JInt 200)"
    by blast
  from max_comments_repair [OF m, of JNull] e2
  have c2: "\<exists>d'. validate_config [(''max_comments'', JNull)] = Inr (d', True) \<and>
         map_of d' ''max_comments'' = Some (JInt 200)"
    by blast
  from max_comments_repair [OF m, of "JInt 10001"] e3
  have c3: "\<exists>d'. validate_config [(''max_comments'', JInt 10001)] = Inr (d', True) \<and>
         map_of d' ''max_comments'' = Some (JInt 200)"
    by blast
  from max_comments_repair [OF m, of "JStr ''50''"] e4
  have c4: "\<exists>d' ch. validate_config [(''max_comments'', JStr ''50'')] = Inr (d', ch) \<and>
         map_of d' ''max_comments'' = Some (JInt 50)"
    by blast
  from c1 c2 c3 c4 show ?thesis
    by blast
qed


section \<open>C8: unique file names\<close>

lemma unique_loop_least:
  "unique_loop fs base ext c =
     candidate base ext (LEAST n. c \<le> n \<and> candidate base ext n \<notin> set fs)"
proof (induction fs base ext c rule: unique_loop.induct)
  case (1 fs base ext counter)
  show ?case
  proof (cases "candidate base ext counter \<in> set fs")
    case True
    have eq: "(counter \<le> n \<and> candidate base ext n \<notin> set fs) =
              (counter + 1 \<le> n \<and> candidate base ext n \<notin> set fs)" for n
      using True by (cases "n = counter") auto
    have "unique_loop fs base ext counter = unique_loop fs base ext (counter + 1)"
      using True by (subst unique_loop.simps) simp
    also have "\<dots> = candidate base ext (LEAST n. counter + 1 \<le> n \<and> candidate base ext n \<notin> set fs)"
      by (rule "1.IH" [OF True])
    finally show ?thesis
      by (simp only: eq)
  next
    case False
    have "(LEAST n. counter \<le> n \<and> candidate base ext n \<notin> set fs) = counter"
      using False by (intro Least_equality) auto
    moreover have "unique_loop fs base ext counter = candidate base ext counter"
      using False by (subst unique_loop.simps) simp
    ultimately show ?thesis
      by simp
  qed
qed

lemma unique_loop_fresh: "unique_loop fs base ext c \<notin> set fs"
proof (induction fs base ext c rule: unique_loop.induct)
  case (1 fs base ext counter)
  show ?case
  proof (cases "candidate base ext counter \<in> set fs")
    case True
    have "unique_loop fs base ext counter = unique_loop fs base ext (counter + 1)"
      using True by (subst unique_loop.simps) simp
    with "1.IH" [OF True] show ?thesis
      by simp
  next
    case False
    have "unique_loop fs base ext counter = candidate base ext counter"
      using False by (subst unique_loop.simps) simp
    with False show ?thesis
      by simp
  qed
qed

lemma splitext_concat: "fst (splitext p) @ snd (splitext p) = p"
  by (simp add: splitext_def Let_def)

lemma unique_example: "get_unique_filename [''a.mp4'', ''a (1).mp4''] ''a.mp4'' = ''a (2).mp4''"
  by code_simp

text \<open>
  Claim C8. For every path and every (finite) file system: a path that does not exist is
  returned unchanged; for a path that exists the result inserts \<open> (n)\<close> between the
  root and the extension that \<open>os.path.splitext\<close> separates, for the smallest \<open>n\<close> from 1
  on whose name does not exist; the result never exists, and the search terminates
  (\<open>unique_loop\<close> is a total function: its termination is proved from the finiteness of
  the file system). With \<open>a.mp4\<close> and \<open>a (1).mp4\<close> present the result for \<open>a.mp4\<close> is
  \<open>a (2).mp4\<close>.
\<close>

theorem get_unique_filename_least:
  "(filename \<notin> set fs \<longrightarrow> get_unique_filename fs filename = filename)
   \<and> (filename \<in> set fs \<longrightarrow>
        get_unique_filename fs filename =
          candidate (fst (splitext filename)) (snd (splitext filename))
            (LEAST n. 1 \<le> n \<and>
               candidate (fst (splitext filename)) (snd (splitext filename)) n \<notin> set fs))
   \<and> get_unique_filename fs filename \<notin> set fs
   \<and> fst (splitext filename) @ snd (splitext filename) = filename
   \<and> get_unique_filename [''a.mp4'', ''a (1).mp4''] ''a.mp4'' = ''a (2).mp4''"
proof (intro conjI impI)
  assume "filename \<notin> set fs"
  then show "get_unique_filename fs filename = filename"
    by (simp add: get_unique_filename_def)
next
  assume "filename \<in> set fs"
  then show "get_unique_filename fs filename =
          candidate (fst (splitext filename)) (snd (splitext filename))
            (LEAST n. 1 \<le> n \<and>
               candidate (fst (splitext filename)) (snd (splitext filename)) n \<notin> set fs)"
    by (simp add: get_unique_filename_def unique_loop_least split_beta)
next
  show "get_unique_filename fs filename \<notin> set fs"
    by (simp add: get_unique_filename_def unique_loop_fresh split_beta)
next
  show "fst (splitext filename) @ snd (splitext filename) = filename"
    by (rule splitext_concat)
next
  show "get_unique_filename [''a.mp4'', ''a (1).mp4''] ''a.mp4'' = ''a (2).mp4''"
    by (rule unique_example)
qed

theorem get_unique_filename_least_witness:
  "''b.mp4'' \<notin> set [''a.mp4'', ''a (1).mp4'']
   \<and> get_unique_filename [''a.mp4'', ''a (1).mp4''] ''b.mp4'' = ''b.mp4''
   \<and> ''a.mp4'' \<in> set [''a.mp4'', ''a (1).mp4'']
   \<and> get_unique_filename [''a.mp4'', ''a (1).mp4''] ''a.mp4'' = candidate ''a'' ''.mp4'' 2
   \<and> (LEAST n. 1 \<le> n \<and> candidate ''a'' ''.mp4'' n \<notin> set [''a.mp4'', ''a (1).mp4'']) = 2"
proof -
  let ?fs = "[''a.mp4'', ''a (1).mp4'']"
  have n: "''b.mp4'' \<notin> set ?fs" by simp
  have m: "''a.mp4'' \<in> set ?fs" by simp
  have sp: "splitext ''a.mp4'' = (''a'', ''.mp4'')" by code_simp
  have c2: "candidate ''a'' ''.mp4'' 2 = ''a (2).mp4''" by code_simp
  from get_unique_filename_least [of "''b.mp4''" ?fs] n
  have r1: "get_unique_filename ?fs ''b.mp4'' = ''b.mp4''" by blast
  note t = get_unique_filename_least [of "''a.mp4''" ?fs, unfolded sp fst_conv snd_conv]
  from t m have r2: "get_unique_filename ?fs ''a.mp4'' =
      candidate ''a'' ''.mp4'' (LEAST n. 1 \<le> n \<and> candidate ''a'' ''.mp4'' n \<notin> set ?fs)"
    by blast
  from t have r3: "get_unique_filename ?fs ''a.mp4'' = ''a (2).mp4''"
    by blast
  from r2 r3 c2 have "candidate ''a'' ''.mp4'' (LEAST n. 1 \<le> n \<and> candidate ''a'' ''.mp4'' n \<notin> set ?fs)
      = candidate ''a'' ''.mp4'' 2"
    by simp
  then have l: "(LEAST n. 1 \<le> n \<and> candidate ''a'' ''.mp4'' n \<notin> set ?fs) = 2"
    by (rule candidate_inj)
  from r3 c2 have r4: "get_unique_filename ?fs ''a.mp4'' = candidate ''a'' ''.mp4'' 2"
    by simp
  from n r1 m r4 l show ?thesis
    by blast
qed


section \<open>Facts about completing a document with defaults\<close>

lemma dict_set_absent: "map_of d k = None \<Longrightarrow> dict_set d k v = d @ [(k, v)]"
  by (induction d) (auto simp: dict_set_def)

lemma add_missing_append:
  "distinct (map fst ds) \<Longrightarrow>
   add_missing_keys ds (d, ch) =
     (d @ filter (\<lambda>entry. map_of d (fst entry) = None) ds,
      ch \<or> filter (\<lambda>entry. map_of d (fst entry) = None) ds \<noteq> [])"
proof (induction ds arbitrary: d ch)
  case Nil
  show ?case by simp
next
  case (Cons a ds)
  obtain key dv where a: "a = (key, dv)" by (cases a)
  from Cons.prems have dist: "distinct (map fst ds)" and notin: "key \<notin> fst ` set ds"
    by (simp_all add: a)
  show ?case
  proof (cases "map_of d key")
    case None
    have f: "filter (\<lambda>entry. map_of (d @ [(key, dv)]) (fst entry) = None) ds =
             filter (\<lambda>entry. map_of d (fst entry) = None) ds"
    proof (rule filter_cong [OF refl])
      fix entry assume "entry \<in> set ds"
      with notin have "fst entry \<noteq> key" by auto
      then show "(map_of (d @ [(key, dv)]) (fst entry) = None) = (map_of d (fst entry) = None)"
        by (simp add: map_add_def split: option.splits)
    qed
    have "add_missing_keys (a # ds) (d, ch) = add_missing_keys ds (d @ [(key, dv)], True)"
      using None by (simp add: a dict_set_absent)
    also have "\<dots> = ((d @ [(key, dv)]) @ filter (\<lambda>entry. map_of d (fst entry) = None) ds, True)"
      unfolding Cons.IH [OF dist] f by simp
    finally show ?thesis
      using None by (simp add: a)
  next
    case (Some v)
    then show ?thesis
      by (simp add: a Cons.IH [OF dist])
  qed
qed

lemma default_distinct: "distinct (map fst DEFAULT_CONFIG)"
  by (simp add: default_keys)

lemma missing_keys_filter:
  "missing_keys d = map fst (filter (\<lambda>entry. map_of d (fst entry) = None) DEFAULT_CONFIG)"
  by (simp add: missing_keys_def filter_map o_def)

lemma add_missing_defaults:
  "add_missing_keys DEFAULT_CONFIG (d, False) = (with_defaults d, missing_keys d \<noteq> [])"
  by (simp add: add_missing_append [OF default_distinct] with_defaults_def missing_keys_filter)

lemma missing_keys_Nil_iff:
  "missing_keys d = [] \<longleftrightarrow> list_all (\<lambda>key. map_of d key \<noteq> None) (map fst DEFAULT_CONFIG)"
  by (auto simp: missing_keys_def filter_empty_conv list_all_iff)

lemma with_defaults_complete: "missing_keys d = [] \<Longrightarrow> with_defaults d = d"
  by (simp add: with_defaults_def missing_keys_filter)

lemma map_of_with_defaults:
  "map_of (with_defaults d) k =
     (case map_of d k of None \<Rightarrow> map_of DEFAULT_CONFIG k | Some v \<Rightarrow> Some v)"
  using add_missing_at [of d False k] by (simp add: add_missing_defaults)

text \<open>The pass on a document that is already repaired, with any flag.\<close>

lemma checks_on_repaired:
  assumes "repaired d"
  shows "check_max_comments
       (check_download_subtitles
         (check_download_comments
           (check_download_metadata
             (check_organize_downloads
               (check_default_format
                 (check_mp3_quality (d, ch))))))) = Inr (d, ch)"
proof -
  from assms have
        f1: "field_is (\<lambda>v. \<not> py_str v \<notin> set VALID_MP3_QUALITIES) d ''mp3_quality''"
    and f2: "field_is (\<lambda>v. \<not> py_lower (py_str v) \<notin> set VALID_DEFAULT_FORMATS) d ''default_format''"
    and f3: "field_is (\<lambda>v. \<not> \<not> is_bool v) d ''organize_downloads''"
    and f4: "field_is (\<lambda>v. \<not> \<not> is_bool v) d ''download_metadata''"
    and f5: "field_is (\<lambda>v. \<not> \<not> is_bool v) d ''download_comments''"
    and f6: "field_is (\<lambda>v. \<not> \<not> is_bool v) d ''download_subtitles''"
    and mc: "field_is max_comments_valid d ''max_comments''"
    by (simp_all add: repaired_def)
  have "check_download_subtitles
         (check_download_comments
           (check_download_metadata
             (check_organize_downloads
               (check_default_format
                 (check_mp3_quality (d, ch)))))) = (d, ch)"
    unfolding check_resets
    using f1 f2 f3 f4 f5 f6 by (simp add: reset_if_id)
  then show ?thesis
    using mc by (simp add: check_max_comments_id)
qed

lemma formats_lower: "list_all (\<lambda>s. py_lower s = s) VALID_DEFAULT_FORMATS"
  by code_simp

lemma field_is_mono: "field_is P d k \<Longrightarrow> (\<And>v. P v \<Longrightarrow> Q v) \<Longrightarrow> field_is Q d k"
  by (auto simp: field_is_def split: option.splits)

lemma schema_valid_repaired:
  assumes "schema_valid d"
  shows "repaired d"
proof -
  note s = assms [unfolded schema_valid_def]
  have pres: "map_of d k \<noteq> None" if "field_is P d k" for P k
    using that by (auto simp: field_is_def split: option.splits)
  have keys: "list_all (\<lambda>key. map_of d key \<noteq> None) (map fst DEFAULT_CONFIG)"
    unfolding default_keys using s by (auto simp: field_is_def split: option.splits)
  have f1: "field_is (\<lambda>v. py_str v \<in> set VALID_MP3_QUALITIES) d ''mp3_quality''"
    by (rule field_is_mono [of "\<lambda>v. v \<in> JStr ` set VALID_MP3_QUALITIES"])
      (use s in \<open>auto simp: py_str_def\<close>)
  have f2: "field_is (\<lambda>v. py_lower (py_str v) \<in> set VALID_DEFAULT_FORMATS) d ''default_format''"
    by (rule field_is_mono [of "\<lambda>v. v \<in> JStr ` set VALID_DEFAULT_FORMATS"])
      (use s formats_lower in \<open>auto simp: py_str_def list_all_iff\<close>)
  from keys f1 f2 s show ?thesis
    by (simp add: repaired_def)
qed

lemma field_ok_with_defaults:
  assumes "field_ok P d k" and "field_is P DEFAULT_CONFIG k"
  shows "field_is P (with_defaults d) k"
  using assms by (auto simp: field_ok_def field_is_def map_of_with_defaults split: option.splits)

lemma schema_valid_default: "schema_valid DEFAULT_CONFIG"
  by code_simp

lemma with_defaults_schema_valid:
  assumes "valid_where_present d"
  shows "schema_valid (with_defaults d)"
proof -
  note v = assms [unfolded valid_where_present_def]
  note s = schema_valid_default [unfolded schema_valid_def]
  show ?thesis
    unfolding schema_valid_def
    using v s by (intro conjI field_ok_with_defaults) simp_all
qed

lemma validate_valid_where_present:
  assumes "valid_where_present d"
  shows "validate_config d = Inr (with_defaults d, missing_keys d \<noteq> [])"
  unfolding validate_config_def add_missing_defaults
  by (rule checks_on_repaired [OF schema_valid_repaired [OF with_defaults_schema_valid [OF assms]]])


section \<open>When the repair pass flags a change\<close>

lemma dict_get_reset_if:
  "dict_get (fst (reset_if bad key dflt repl p)) k d' =
     (if k = key \<and> bad (dict_get (fst p) key dflt) then repl else dict_get (fst p) k d')"
  by (simp add: dict_get_def map_of_reset_if)

lemma pass_flag:
  "snd (repaired_pass d) \<longleftrightarrow>
     missing_keys d \<noteq> [] \<or>
     py_str (dict_get (with_defaults d) ''mp3_quality'' (JStr ''192'')) \<notin> set VALID_MP3_QUALITIES \<or>
     py_lower (py_str (dict_get (with_defaults d) ''default_format'' (JStr ''show_all'')))
       \<notin> set VALID_DEFAULT_FORMATS \<or>
     \<not> is_bool (dict_get (with_defaults d) ''organize_downloads'' (JBool False)) \<or>
     \<not> is_bool (dict_get (with_defaults d) ''download_metadata'' (JBool True)) \<or>
     \<not> is_bool (dict_get (with_defaults d) ''download_comments'' (JBool False)) \<or>
     \<not> is_bool (dict_get (with_defaults d) ''download_subtitles'' (JBool False))"
  unfolding repaired_pass_def add_missing_defaults check_resets
  by (auto simp: snd_reset_if dict_get_reset_if)

lemma pass_max_comments_value:
  "dict_get (fst (repaired_pass d)) ''max_comments'' dflt =
   dict_get (with_defaults d) ''max_comments'' dflt"
  unfolding repaired_pass_def add_missing_defaults check_resets
  by (simp add: dict_get_reset_if)

lemma check_max_comments_flag:
  assumes "check_max_comments p = Inr (d', ch)"
  shows "ch \<longleftrightarrow> snd p \<or> \<not> int_in_range (dict_get (fst p) ''max_comments'' (JInt 200))"
proof (cases "py_int (dict_get (fst p) ''max_comments'' (JInt 200))")
  case (Inl e)
  with assms show ?thesis
    by (auto simp: check_max_comments_result int_in_range_def split: if_splits)
next
  case (Inr n)
  with assms show ?thesis
    by (auto simp: check_max_comments_result int_in_range_def split: if_splits)
qed

lemma validate_flag:
  assumes "validate_config d = Inr (d', ch)"
  shows "ch \<longleftrightarrow> \<not> passes_checks d"
proof -
  from assms have q: "check_max_comments (repaired_pass d) = Inr (d', ch)"
    by (simp add: validate_split)
  note fl = check_max_comments_flag [OF q, unfolded pass_max_comments_value]
  show ?thesis
  proof (cases "missing_keys d = []")
    case False
    then have "snd (repaired_pass d)"
      by (simp add: pass_flag)
    with fl have ch by simp
    moreover from False have "\<not> passes_checks d"
      by (simp add: passes_checks_def missing_keys_Nil_iff)
    ultimately show ?thesis by simp
  next
    case True
    then have keys: "list_all (\<lambda>key. map_of d key \<noteq> None) (map fst DEFAULT_CONFIG)"
      by (simp add: missing_keys_Nil_iff)
    then have pres: "map_of d k \<noteq> None" if "k \<in> set (map fst DEFAULT_CONFIG)" for k
      using that by (auto simp: list_all_iff)
    have fi: "field_is P d k = P (dict_get d k dflt)" if "k \<in> set (map fst DEFAULT_CONFIG)"
      for P k dflt
      by (rule field_is_present [OF pres [OF that]])
    have wd: "with_defaults d = d"
      by (rule with_defaults_complete [OF True])
    have "passes_checks d \<longleftrightarrow>
        py_str (dict_get d ''mp3_quality'' (JStr ''192'')) \<in> set VALID_MP3_QUALITIES \<and>
        py_lower (py_str (dict_get d ''default_format'' (JStr ''show_all'')))
          \<in> set VALID_DEFAULT_FORMATS \<and>
        is_bool (dict_get d ''organize_downloads'' (JBool False)) \<and>
        is_bool (dict_get d ''download_metadata'' (JBool True)) \<and>
        is_bool (dict_get d ''download_comments'' (JBool False)) \<and>
        is_bool (dict_get d ''download_subtitles'' (JBool False)) \<and>
        int_in_range (dict_get d ''max_comments'' (JInt 200))"
      unfolding passes_checks_def
      using keys
      by (simp add: fi [of "''mp3_quality''" _ "JStr ''192''"]
          fi [of "''default_format''" _ "JStr ''show_all''"]
          fi [of "''organize_downloads''" _ "JBool False"]
          fi [of "''download_metadata''" _ "JBool True"]
          fi [of "''download_comments''" _ "JBool False"]
          fi [of "''download_subtitles''" _ "JBool False"]
          fi [of "''max_comments''" _ "JInt 200"] default_keys)
    with fl True show ?thesis
      by (auto simp: pass_flag wd)
  qed
qed

lemma repaired_passes_checks: "repaired d \<Longrightarrow> passes_checks d"
proof -
  assume r: "repaired d"
  have "int_in_range v" if "max_comments_valid v" for v
    using that by (cases v) (simp_all add: max_comments_valid_def int_in_range_def py_int_def)
  then have "field_is int_in_range d ''max_comments''"
    using r by (auto simp: repaired_def intro: field_is_mono)
  with r show ?thesis
    by (simp add: repaired_def passes_checks_def)
qed


section \<open>Facts about \<open>load_config\<close>\<close>

lemma repaired_default: "repaired DEFAULT_CONFIG"
  by (rule schema_valid_repaired [OF schema_valid_default])

lemma validate_default: "validate_config DEFAULT_CONFIG = Inr (DEFAULT_CONFIG, False)"
  by (rule repaired_fixpoint [OF repaired_default])

lemma validate_twice:
  "validate_config d = Inr (d', ch) \<Longrightarrow> validate_config d' = Inr (d', False)"
  by (rule repaired_fixpoint [OF validate_repaired])

lemma load_config_missing:
  "config_file fs = None \<Longrightarrow> load_config fs = (Inr DEFAULT_CONFIG, write_config DEFAULT_CONFIG fs)"
  by (simp add: load_config_def)

lemma load_config_unparseable:
  "config_file fs = Some Unparseable \<Longrightarrow> load_config fs = (Inr DEFAULT_CONFIG, fs)"
  by (simp add: load_config_def)

lemma load_config_unloadable:
  "config_file fs = Some (Unloadable e) \<Longrightarrow> load_config fs = (Inl e, fs)"
  by (simp add: load_config_def)

lemma load_config_document:
  "config_file fs = Some (Document (JDict d)) \<Longrightarrow>
   load_config fs =
     (case validate_config d of
        Inl e \<Rightarrow> (Inl e, fs)
      | Inr r \<Rightarrow> (if snd r then (Inr (fst r), save_config (fst r) fs) else (Inr (fst r), fs)))"
  by (simp add: load_config_def split: sum.splits prod.splits)

lemma load_config_not_dict:
  "config_file fs = Some (Document v) \<Longrightarrow> \<forall>d. v \<noteq> JDict d \<Longrightarrow> load_config fs = (Inl (non_dict_error v), fs)"
  by (cases v) (simp_all add: load_config_def)

lemma write_config_ok:
  "on_write fs = WriteOk \<Longrightarrow> write_config c fs = fs\<lparr>config_file := Some (Document (JDict c))\<rparr>"
  by (simp add: write_config_def)

lemma write_config_open_fails: "on_write fs = OpenFails \<Longrightarrow> write_config c fs = fs"
  by (simp add: write_config_def)

lemma write_config_write_fails:
  "on_write fs = WriteFails \<Longrightarrow> write_config c fs = fs\<lparr>config_file := Some Unparseable\<rparr>"
  by (simp add: write_config_def)

text \<open>The cases of a load that returns a configuration.\<close>

lemma load_config_cases:
  assumes "load_config fs = (Inr cfg, fs')"
  obtains
    (missing) "config_file fs = None" "cfg = DEFAULT_CONFIG" "fs' = write_config DEFAULT_CONFIG fs"
  | (unparseable) "config_file fs = Some Unparseable" "cfg = DEFAULT_CONFIG" "fs' = fs"
  | (unchanged) d where "config_file fs = Some (Document (JDict d))"
      "validate_config d = Inr (cfg, False)" "fs' = fs"
  | (corrected) d where "config_file fs = Some (Document (JDict d))"
      "validate_config d = Inr (cfg, True)" "fs' = write_config cfg fs"
proof (cases "config_file fs")
  case None
  from assms have "(Inr DEFAULT_CONFIG, write_config DEFAULT_CONFIG fs) = (Inr cfg, fs')"
    by (simp add: load_config_missing [OF None])
  then have c: "cfg = DEFAULT_CONFIG" and f: "fs' = write_config DEFAULT_CONFIG fs"
    by simp_all
  show ?thesis
    by (rule missing [OF None c f])
next
  case (Some c)
  show ?thesis
  proof (cases c)
    case Unparseable
    have fl: "config_file fs = Some Unparseable"
      by (simp add: Some Unparseable)
    from assms have "(Inr DEFAULT_CONFIG, fs) = (Inr cfg, fs')"
      by (simp add: load_config_unparseable [OF fl])
    then have c: "cfg = DEFAULT_CONFIG" and f: "fs' = fs"
      by simp_all
    show ?thesis
      by (rule unparseable [OF fl c f])
  next
    case (Unloadable e)
    have "load_config fs = (Inl e, fs)"
      by (rule load_config_unloadable) (simp add: Some Unloadable)
    with assms show ?thesis
      by simp
  next
    case (Document v)
    have fl: "config_file fs = Some (Document v)"
      by (simp add: Some Document)
    show ?thesis
    proof (cases "\<exists>d. v = JDict d")
      case False
      then have "load_config fs = (Inl (non_dict_error v), fs)"
        by (intro load_config_not_dict [OF fl]) simp
      with assms show ?thesis
        by simp
    next
      case True
      then obtain d where v: "v = JDict d" by blast
      have filed: "config_file fs = Some (Document (JDict d))"
        by (simp add: fl v)
      show ?thesis
      proof (cases "validate_config d")
        case (Inl e)
        then have "load_config fs = (Inl e, fs)"
          by (simp add: load_config_document [OF filed])
        with assms show ?thesis
          by simp
      next
        case (Inr r)
        obtain d' ch where r: "r = (d', ch)" by (cases r)
        show ?thesis
        proof (cases ch)
          case True
          have "load_config fs = (Inr d', write_config d' fs)"
            by (simp add: load_config_document [OF filed] Inr r True save_config_def)
          with assms have c: "d' = cfg" and f: "fs' = write_config cfg fs"
            by auto
          have val: "validate_config d = Inr (cfg, True)"
            by (simp add: Inr r True c)
          show ?thesis
            by (rule corrected [OF filed val f])
        next
          case False
          have "load_config fs = (Inr d', fs)"
            by (simp add: load_config_document [OF filed] Inr r False)
          with assms have c: "d' = cfg" and f: "fs' = fs"
            by auto
          have val: "validate_config d = Inr (cfg, False)"
            by (simp add: Inr r False c)
          show ?thesis
            by (rule unchanged [OF filed val f])
        qed
      qed
    qed
  qed
qed

lemma load_config_result_repaired:
  assumes "load_config fs = (Inr cfg, fs')"
  shows "repaired cfg"
  using assms
proof (cases rule: load_config_cases)
  case missing
  then show ?thesis by (simp add: repaired_default)
next
  case unparseable
  then show ?thesis by (simp add: repaired_default)
next
  case (unchanged d)
  then show ?thesis by (simp add: validate_repaired)
next
  case (corrected d)
  then show ?thesis by (simp add: validate_repaired)
qed

lemma load_config_of_document:
  assumes "load_config fs = (Inr cfg, fs')" and "config_file fs = Some (Document (JDict d))"
  shows "validate_config d = Inr (cfg, \<not> passes_checks d)"
    and "passes_checks d \<Longrightarrow> fs' = fs"
    and "\<not> passes_checks d \<Longrightarrow> fs' = write_config cfg fs"
proof -
  have "validate_config d = Inr (cfg, \<not> passes_checks d) \<and>
        (passes_checks d \<longrightarrow> fs' = fs) \<and> (\<not> passes_checks d \<longrightarrow> fs' = write_config cfg fs)"
    using assms(1)
  proof (cases rule: load_config_cases)
    case missing
    with assms(2) show ?thesis by simp
  next
    case unparseable
    with assms(2) show ?thesis by simp
  next
    case (unchanged d0)
    with assms(2) have v: "validate_config d = Inr (cfg, False)" by simp
    from validate_flag [OF v] have "passes_checks d" by simp
    with v unchanged(3) show ?thesis by simp
  next
    case (corrected d0)
    with assms(2) have v: "validate_config d = Inr (cfg, True)" by simp
    from validate_flag [OF v] have "\<not> passes_checks d" by simp
    with v corrected(3) show ?thesis by simp
  qed
  then show "validate_config d = Inr (cfg, \<not> passes_checks d)"
    and "passes_checks d \<Longrightarrow> fs' = fs"
    and "\<not> passes_checks d \<Longrightarrow> fs' = write_config cfg fs"
    by simp_all
qed

lemma load_config_on_disk:
  assumes "load_config fs = (Inr cfg, fs')" and "on_write fs = WriteOk"
    and "config_file fs \<noteq> Some Unparseable"
  shows "\<exists>d. config_file fs' = Some (Document (JDict d)) \<and> passes_checks d"
  using assms(1)
proof (cases rule: load_config_cases)
  case missing
  with assms(2) repaired_passes_checks [OF repaired_default] show ?thesis
    by (simp add: write_config_ok)
next
  case unparseable
  with assms(3) show ?thesis by simp
next
  case (unchanged d)
  from validate_flag [OF unchanged(2)] have "passes_checks d" by simp
  with unchanged show ?thesis by simp
next
  case (corrected d)
  have "passes_checks cfg"
    by (rule repaired_passes_checks [OF validate_repaired [OF corrected(2)]])
  with corrected assms(2) show ?thesis
    by (simp add: write_config_ok)
qed

lemma py_int_errors:
  "py_int v = Inl e \<Longrightarrow> e = ValueError \<or> e = TypeError \<or> (e = OverflowError \<and> (\<exists>neg. v = JFloat (PyInf neg)))"
  by (auto simp: py_int_def int_of_str_def Let_def split: json.splits pyfloat.splits if_splits)

lemma default_max_comments: "map_of DEFAULT_CONFIG ''max_comments'' = Some (JInt 200)"
  by (simp add: DEFAULT_CONFIG_def)

lemma validate_fails_only_on_infinity:
  assumes "validate_config d = Inl e"
  shows "e = OverflowError \<and> (\<exists>neg. map_of d ''max_comments'' = Some (JFloat (PyInf neg)))"
proof (cases "map_of d ''max_comments''")
  case None
  have "dict_get (fst (repaired_pass d)) ''max_comments'' (JInt 200) = JInt 200"
    unfolding pass_max_comments_value
    by (simp add: dict_get_def map_of_with_defaults default_max_comments None)
  then have "validate_config d =
      Inr (dict_set (fst (repaired_pass d)) ''max_comments'' (JInt 200), snd (repaired_pass d))"
    by (simp add: validate_split check_max_comments_result py_int_def)
  with assms show ?thesis
    by simp
next
  case (Some v)
  note aux = max_comments_repair_aux [OF Some]
  show ?thesis
  proof (cases "py_int v")
    case (Inr n)
    with aux have "\<exists>r. validate_config d = Inr r"
      by (cases "n < 1 \<or> n > 10000") auto
    with assms show ?thesis
      by auto
  next
    case (Inl e')
    show ?thesis
    proof (cases "e' = ValueError \<or> e' = TypeError")
      case True
      with aux Inl have "\<exists>r. validate_config d = Inr r"
        by auto
      with assms show ?thesis
        by auto
    next
      case False
      with aux Inl have "validate_config d = Inl e'"
        by simp
      with assms have "e = e'"
        by simp
      with py_int_errors [OF Inl] False Some show ?thesis
        by auto
    qed
  qed
qed


section \<open>C1: what a loaded configuration satisfies\<close>

text \<open>
  Claim C1 says that every configuration returned by \<open>load_config\<close> satisfies the whole
  schema of section 3, the four sub-keys of \<open>authentication\<close> included, and that the
  corrected document is written back whenever a key was missing or invalid. The repair
  pass validates seven fields only: a document whose \<open>authentication\<close> is an empty object
  is returned, and written back, with that empty object, so the returned configuration
  does not satisfy the schema. And the write is inside \<open>try ... except IOError\<close>: when
  opening the file for writing fails, the empty document is completed in memory only
  and the file keeps the empty document.
\<close>

theorem load_config_schema_counterexample:
  "load_config \<lparr>config_file = Some (Document (JDict [(''authentication'', JDict [])])),
                 on_write = WriteOk\<rparr> =
     (Inr ((''authentication'', JDict []) # butlast DEFAULT_CONFIG),
      \<lparr>config_file =
         Some (Document (JDict ((''authentication'', JDict []) # butlast DEFAULT_CONFIG))),
       on_write = WriteOk\<rparr>)
   \<and> \<not> schema_valid ((''authentication'', JDict []) # butlast DEFAULT_CONFIG)
   \<and> schema_valid DEFAULT_CONFIG
   \<and> load_config \<lparr>config_file = Some (Document (JDict [])), on_write = OpenFails\<rparr> =
     (Inr DEFAULT_CONFIG, \<lparr>config_file = Some (Document (JDict [])), on_write = OpenFails\<rparr>)
   \<and> \<not> passes_checks []"
  by code_simp

text \<open>
  Claim C1, amended. Every configuration that \<open>load_config\<close> returns holds every key of
  the default configuration, and its seven validated fields pass the tests of the
  repair pass: the string form of \<open>mp3_quality\<close> is one of the six qualities, the
  lower-cased string form of \<open>default_format\<close> is one of the nine formats, the four
  switches are booleans and \<open>max_comments\<close> is an integer from 1 to 10000;
  \<open>download_directory\<close>, \<open>history_file\<close> and \<open>authentication\<close> are present but not
  validated. For a document on disk, whenever a key of the default configuration is
  missing or one of the seven fields fails its test, the pass flags it and the returned
  configuration is written: when the write succeeds the file holds the returned
  configuration; when no key is missing and no field fails, the file system is left as
  it is. A missing file is replaced by the default configuration. In all these cases,
  after a successful write or no write, the document on disk has every key and passes
  every test of the pass.
\<close>

theorem load_config_repaired:
  assumes "load_config fs = (Inr cfg, fs')"
  shows "repaired cfg \<and> passes_checks cfg
    \<and> (\<forall>d. config_file fs = Some (Document (JDict d)) \<longrightarrow>
          validate_config d = Inr (cfg, \<not> passes_checks d) \<and>
          (passes_checks d \<longrightarrow> fs' = fs) \<and>
          (\<not> passes_checks d \<longrightarrow> fs' = write_config cfg fs) \<and>
          (\<not> passes_checks d \<and> on_write fs = WriteOk \<longrightarrow>
             config_file fs' = Some (Document (JDict cfg))))
    \<and> (config_file fs = None \<longrightarrow>
          cfg = DEFAULT_CONFIG \<and> fs' = write_config DEFAULT_CONFIG fs \<and>
          (on_write fs = WriteOk \<longrightarrow> config_file fs' = Some (Document (JDict DEFAULT_CONFIG))))
    \<and> (on_write fs = WriteOk \<and> config_file fs \<noteq> Some Unparseable \<longrightarrow>
          (\<exists>d'. config_file fs' = Some (Document (JDict d')) \<and> passes_checks d'))"
proof (intro conjI allI impI)
  show r: "repaired cfg"
    by (rule load_config_result_repaired [OF assms])
  show "passes_checks cfg"
    by (rule repaired_passes_checks [OF r])
next
  fix d assume f: "config_file fs = Some (Document (JDict d))"
  show "validate_config d = Inr (cfg, \<not> passes_checks d)"
    by (rule load_config_of_document(1) [OF assms f])
  show "fs' = fs" if "passes_checks d"
    by (rule load_config_of_document(2) [OF assms f that])
  show "fs' = write_config cfg fs" if "\<not> passes_checks d"
    by (rule load_config_of_document(3) [OF assms f that])
  show "config_file fs' = Some (Document (JDict cfg))"
    if "\<not> passes_checks d \<and> on_write fs = WriteOk"
    using load_config_of_document(3) [OF assms f] that by (simp add: write_config_ok)
next
  assume n: "config_file fs = None"
  from assms show c: "cfg = DEFAULT_CONFIG" and w: "fs' = write_config DEFAULT_CONFIG fs"
    by (simp_all add: load_config_missing [OF n])
  show "config_file fs' = Some (Document (JDict DEFAULT_CONFIG))" if "on_write fs = WriteOk"
    using w that by (simp add: write_config_ok)
next
  assume "on_write fs = WriteOk \<and> config_file fs \<noteq> Some Unparseable"
  then show "\<exists>d'. config_file fs' = Some (Document (JDict d')) \<and> passes_checks d'"
    using load_config_on_disk [OF assms] by blast
qed

theorem load_config_repaired_witness:
  "load_config \<lparr>config_file = Some (Document (JDict [(''max_comments'', JInt 0)])),
                 on_write = WriteOk\<rparr> =
     (Inr ((''max_comments'', JInt 200) # remove1 (''max_comments'', JInt 200) DEFAULT_CONFIG),
      \<lparr>config_file = Some (Document (JDict
         ((''max_comments'', JInt 200) # remove1 (''max_comments'', JInt 200) DEFAULT_CONFIG))),
       on_write = WriteOk\<rparr>)
   \<and> \<not> passes_checks [(''max_comments'', JInt 0)]
   \<and> repaired ((''max_comments'', JInt 200) # remove1 (''max_comments'', JInt 200) DEFAULT_CONFIG)
   \<and> passes_checks
       ((''max_comments'', JInt 200) # remove1 (''max_comments'', JInt 200) DEFAULT_CONFIG)"
proof -
  let ?fs = "\<lparr>config_file = Some (Document (JDict [(''max_comments'', JInt 0)])), on_write = WriteOk\<rparr>"
  let ?cfg = "(''max_comments'', JInt 200) # remove1 (''max_comments'', JInt 200) DEFAULT_CONFIG"
  let ?fs' = "\<lparr>config_file = Some (Document (JDict ?cfg)), on_write = WriteOk\<rparr>"
  have l: "load_config ?fs = (Inr ?cfg, ?fs')"
    by code_simp
  have n: "\<not> passes_checks [(''max_comments'', JInt 0)]"
    by code_simp
  from load_config_repaired [OF l] have "repaired ?cfg" "passes_checks ?cfg"
    by blast+
  with l n show ?thesis
    by blast
qed


section \<open>C4: persistence and idempotence of \<open>load_config\<close>\<close>

text \<open>
  Claim C4 says that whenever a key was added the persisted file equals the document in
  memory, and that a second load yields the same document. The write is attempted
  inside \<open>try ... except IOError\<close>. When opening the file fails, the empty document is
  completed in memory while the file keeps the empty document. When the write fails
  after the file was opened, the file is left truncated: the first load returns the
  stored \<open>download_comments = true\<close> with the defaults added, the second load cannot
  parse the file and returns the default configuration, with \<open>download_comments = false\<close>.
\<close>

theorem load_config_persist_counterexample:
  "load_config \<lparr>config_file = Some (Document (JDict [])), on_write = OpenFails\<rparr> =
     (Inr DEFAULT_CONFIG, \<lparr>config_file = Some (Document (JDict [])), on_write = OpenFails\<rparr>)
   \<and> DEFAULT_CONFIG \<noteq> []
   \<and> valid_where_present []
   \<and> valid_where_present [(''download_comments'', JBool True)]
   \<and> load_config
       \<lparr>config_file = Some (Document (JDict [(''download_comments'', JBool True)])),
        on_write = WriteFails\<rparr> =
     (Inr ((''download_comments'', JBool True) #
             remove1 (''download_comments'', JBool False) DEFAULT_CONFIG),
      \<lparr>config_file = Some Unparseable, on_write = WriteFails\<rparr>)
   \<and> load_config \<lparr>config_file = Some Unparseable, on_write = WriteFails\<rparr> =
     (Inr DEFAULT_CONFIG, \<lparr>config_file = Some Unparseable, on_write = WriteFails\<rparr>)
   \<and> DEFAULT_CONFIG \<noteq>
       (''download_comments'', JBool True) # remove1 (''download_comments'', JBool False) DEFAULT_CONFIG"
  by code_simp

text \<open>
  Claim C4, amended. For every configuration document that misses any subset of the
  recognized keys (the recognized keys it holds have schema-valid values): \<open>load_config\<close>
  returns the document completed with the default entries of the missing keys, which
  has all keys present and satisfies the schema; the repair pass flags a change exactly
  when a key is missing, and the completed document is then written, otherwise the
  file system is left as it is. When the write succeeds, the file afterwards holds
  exactly the returned document, and \<open>load_config\<close> is idempotent: a second load on the
  resulting state returns the same document and leaves the state as it is, the repair
  pass flagging no correction on the completed document.
\<close>

theorem load_config_idempotent:
  assumes "valid_where_present d" and "config_file fs = Some (Document (JDict d))"
  shows "fst (load_config fs) = Inr (with_defaults d)
    \<and> schema_valid (with_defaults d)
    \<and> list_all (\<lambda>key. map_of (with_defaults d) key \<noteq> None) (map fst DEFAULT_CONFIG)
    \<and> validate_config d = Inr (with_defaults d, missing_keys d \<noteq> [])
    \<and> snd (load_config fs) =
        (if missing_keys d = [] then fs else write_config (with_defaults d) fs)
    \<and> (missing_keys d = [] \<longrightarrow> with_defaults d = d)
    \<and> (on_write fs = WriteOk \<longrightarrow>
          config_file (snd (load_config fs)) = Some (Document (JDict (with_defaults d))) \<and>
          load_config (snd (load_config fs)) = (Inr (with_defaults d), snd (load_config fs)))
    \<and> validate_config (with_defaults d) = Inr (with_defaults d, False)"
proof -
  note v = validate_valid_where_present [OF assms(1)]
  have sv: "schema_valid (with_defaults d)"
    by (rule with_defaults_schema_valid [OF assms(1)])
  have rp: "repaired (with_defaults d)"
    by (rule schema_valid_repaired [OF sv])
  have keys: "list_all (\<lambda>key. map_of (with_defaults d) key \<noteq> None) (map fst DEFAULT_CONFIG)"
    using rp by (simp add: repaired_def)
  have fx: "validate_config (with_defaults d) = Inr (with_defaults d, False)"
    by (rule repaired_fixpoint [OF rp])
  have l: "load_config fs =
      (Inr (with_defaults d), if missing_keys d = [] then fs else write_config (with_defaults d) fs)"
    by (simp add: load_config_document [OF assms(2)] v save_config_def)
  have wd: "with_defaults d = d" if "missing_keys d = []"
    by (rule with_defaults_complete [OF that])
  have ok: "config_file (snd (load_config fs)) = Some (Document (JDict (with_defaults d))) \<and>
          load_config (snd (load_config fs)) = (Inr (with_defaults d), snd (load_config fs))"
    if w: "on_write fs = WriteOk"
  proof -
    have f': "config_file (snd (load_config fs)) = Some (Document (JDict (with_defaults d)))"
      using assms(2) wd by (simp add: l write_config_ok [OF w])
    have "load_config (snd (load_config fs)) = (Inr (with_defaults d), snd (load_config fs))"
      by (simp add: load_config_document [OF f'] fx)
    with f' show ?thesis
      by simp
  qed
  from l sv keys v wd ok fx show ?thesis
    by simp
qed

theorem load_config_idempotent_witness:
  "valid_where_present (butlast DEFAULT_CONFIG)
   \<and> missing_keys (butlast DEFAULT_CONFIG) = [''authentication'']
   \<and> with_defaults (butlast DEFAULT_CONFIG) = DEFAULT_CONFIG
   \<and> load_config \<lparr>config_file = Some (Document (JDict (butlast DEFAULT_CONFIG))), on_write = WriteOk\<rparr> =
     (Inr DEFAULT_CONFIG, \<lparr>config_file = Some (Document (JDict DEFAULT_CONFIG)), on_write = WriteOk\<rparr>)
   \<and> schema_valid DEFAULT_CONFIG
   \<and> load_config \<lparr>config_file = Some (Document (JDict DEFAULT_CONFIG)), on_write = WriteOk\<rparr> =
     (Inr DEFAULT_CONFIG, \<lparr>config_file = Some (Document (JDict DEFAULT_CONFIG)), on_write = WriteOk\<rparr>)"
proof -
  let ?d = "butlast DEFAULT_CONFIG"
  let ?fs = "\<lparr>config_file = Some (Document (JDict ?d)), on_write = WriteOk\<rparr>"
  let ?fs' = "\<lparr>config_file = Some (Document (JDict DEFAULT_CONFIG)), on_write = WriteOk\<rparr>"
  have vp: "valid_where_present ?d"
    by code_simp
  have f: "config_file ?fs = Some (Document (JDict ?d))"
    by simp
  have w: "on_write ?fs = WriteOk"
    by simp
  have m: "missing_keys ?d = [''authentication'']"
    by code_simp
  have wd: "with_defaults ?d = DEFAULT_CONFIG"
    by code_simp
  have l: "load_config ?fs = (Inr DEFAULT_CONFIG, ?fs')"
    by code_simp
  note t = load_config_idempotent [OF vp f, unfolded wd l fst_conv snd_conv]
  from t have sv: "schema_valid DEFAULT_CONFIG"
    by blast
  from t w have "load_config ?fs' = (Inr DEFAULT_CONFIG, ?fs')"
    by blast
  with vp m wd l sv show ?thesis
    by blast
qed


section \<open>C10: unrecognized keys\<close>

text \<open>
  Claim C10. The repair pass only adds or modifies keys of the default configuration:
  for every document and every key outside the default configuration's key set, the
  output of the pass has under that key exactly what the input had (the value, or no
  entry). \<open>load_config\<close> carries such keys into the returned configuration, and when it
  rewrites the file, the file holds the returned configuration with them: the state
  after the load is the state before it, or the file holds the returned configuration,
  or the write failed after opening the file and left it truncated. The pass fails to
  return only when \<open>max_comments\<close> is an infinite float.
\<close>

theorem repair_preserves_unrecognized_keys:
  assumes "k \<notin> set (map fst DEFAULT_CONFIG)"
  shows "(\<forall>d' ch. validate_config d = Inr (d', ch) \<longrightarrow> map_of d' k = map_of d k)
    \<and> (\<forall>e. validate_config d = Inl e \<longrightarrow>
          (\<exists>neg. map_of d ''max_comments'' = Some (JFloat (PyInf neg))))
    \<and> (\<forall>cfg fs'. config_file fs = Some (Document (JDict d)) \<and> load_config fs = (Inr cfg, fs') \<longrightarrow>
          map_of cfg k = map_of d k \<and>
          (fs' = fs \<or> config_file fs' = Some (Document (JDict cfg)) \<or>
           (on_write fs = WriteFails \<and> config_file fs' = Some Unparseable)) \<and>
          (on_write fs = WriteOk \<longrightarrow> fs' = fs \<or> config_file fs' = Some (Document (JDict cfg))))"
proof (intro conjI allI impI)
  fix d' ch
  assume "validate_config d = Inr (d', ch)"
  then show "map_of d' k = map_of d k"
    by (rule validate_other [OF _ assms])
next
  fix e
  assume "validate_config d = Inl e"
  then show "\<exists>neg. map_of d ''max_comments'' = Some (JFloat (PyInf neg))"
    using validate_fails_only_on_infinity by blast
next
  fix cfg fs'
  assume a: "config_file fs = Some (Document (JDict d)) \<and> load_config fs = (Inr cfg, fs')"
  then have l: "load_config fs = (Inr cfg, fs')" and f: "config_file fs = Some (Document (JDict d))"
    by simp_all
  note v = load_config_of_document(1) [OF l f]
  show "map_of cfg k = map_of d k"
    by (rule validate_other [OF v assms])
  have st: "fs' = fs \<or> fs' = write_config cfg fs"
    using load_config_of_document(2,3) [OF l f] by blast
  show "fs' = fs \<or> config_file fs' = Some (Document (JDict cfg)) \<or>
           (on_write fs = WriteFails \<and> config_file fs' = Some Unparseable)"
    using st
    by (cases "on_write fs")
      (auto simp: write_config_ok write_config_open_fails write_config_write_fails)
  show "fs' = fs \<or> config_file fs' = Some (Document (JDict cfg))" if "on_write fs = WriteOk"
    using st that by (auto simp: write_config_ok)
qed

theorem repair_preserves_unrecognized_keys_witness:
  "''theme'' \<notin> set (map fst DEFAULT_CONFIG)
   \<and> validate_config [(''theme'', JStr ''dark''), (''mp3_quality'', JStr ''999'')] =
       Inr ((''theme'', JStr ''dark'') # (''mp3_quality'', JStr ''192'') #
            remove1 (''mp3_quality'', JStr ''192'') DEFAULT_CONFIG, True)
   \<and> map_of ((''theme'', JStr ''dark'') # (''mp3_quality'', JStr ''192'') #
            remove1 (''mp3_quality'', JStr ''192'') DEFAULT_CONFIG) ''theme'' = Some (JStr ''dark'')"
proof -
  let ?d = "[(''theme'', JStr ''dark''), (''mp3_quality'', JStr ''999'')]"
  let ?d' = "(''theme'', JStr ''dark'') # (''mp3_quality'', JStr ''192'') #
            remove1 (''mp3_quality'', JStr ''192'') DEFAULT_CONFIG"
  have k: "''theme'' \<notin> set (map fst DEFAULT_CONFIG)"
    by code_simp
  have v: "validate_config ?d = Inr (?d', True)"
    by code_simp
  from repair_preserves_unrecognized_keys [OF k, of ?d] v
  have "map_of ?d' ''theme'' = map_of ?d ''theme''"
    by blast
  then have "map_of ?d' ''theme'' = Some (JStr ''dark'')"
    by simp
  with k v show ?thesis
    by blast
qed

end
